theory Spec2Isabelle
  imports Main
begin

section \<open>The element type \<open>T\<close> and the ways a call can end\<close>

text \<open>
  \<open>vector.h\<close> is a class template: everything it does to an element goes through the
  special member functions of \<open>T\<close>, each of which may throw and may touch the rest of
  the program (a construction counter, say). The rest of the program is the state
  \<open>'e\<close>, threaded through every call. An exception is a value: a function that can
  throw returns \<open>Inl\<close> of it, a procedure returns \<open>Some\<close> of it.

  Sizes and indices (\<open>size_t\<close>) are \<open>nat\<close>: a buffer of \<open>2 ^ 63\<close> elements cannot be
  allocated, so \<open>size_ * 2\<close> does not wrap on a state the program can reach.
\<close>

datatype exn = Bad_alloc | Thrown nat

text \<open>
  A call returns normally (\<open>None\<close>), or leaves by an exception, or trips one of the
  \<open>assert\<close>s of the source, or does something the language leaves undefined (reading or
  destroying a slot that holds no object, addressing past the allocated block).
\<close>

datatype fault = Exception exn | Assertion_failed | Undefined_behaviour

text \<open>One slot of raw storage: uninitialised bytes, or a constructed object.\<close>

datatype 'a slot = Raw | Live 'a

text \<open>
  The operations of \<open>T\<close>.
  \<^item> \<open>T_value_init\<close> is \<open>T()\<close>, \<open>T_copy x\<close> is \<open>T(const T&)\<close>.
  \<^item> \<open>T_move x\<close> is \<open>T(T&&)\<close>: it returns what is left in the source as well.
  \<^item> \<open>T_copy_assign y x\<close> is \<open>y = x\<close> and returns the new \<open>y\<close>;
    \<open>T_move_assign y x\<close> is \<open>y = std::move(x)\<close> and returns the new \<open>y\<close> and \<open>x\<close>.
  \<^item> \<open>T_destroy\<close> is the destructor (it does not throw).
  \<^item> \<open>operator_new n\<close> answers whether \<open>operator new(n * sizeof(T))\<close> succeeds.
  \<^item> the two traits tested by \<open>if constexpr\<close>.
\<close>

record ('a, 'e) elem_type =
  T_value_init :: "'e \<Rightarrow> 'e \<times> (exn + 'a)"
  T_copy :: "'a \<Rightarrow> 'e \<Rightarrow> 'e \<times> (exn + 'a)"
  T_move :: "'a \<Rightarrow> 'e \<Rightarrow> 'e \<times> 'a \<times> (exn + 'a)"
  T_copy_assign :: "'a \<Rightarrow> 'a \<Rightarrow> 'e \<Rightarrow> 'e \<times> 'a \<times> exn option"
  T_move_assign :: "'a \<Rightarrow> 'a \<Rightarrow> 'e \<Rightarrow> 'e \<times> 'a \<times> 'a \<times> exn option"
  T_destroy :: "'a \<Rightarrow> 'e \<Rightarrow> 'e"
  operator_new :: "nat \<Rightarrow> 'e \<Rightarrow> 'e \<times> bool"
  is_nothrow_move_constructible_v :: bool
  is_copy_constructible_v :: bool

text \<open>\<open>T(std::forward<Args>(args)...)\<close>: any way of constructing one element.\<close>

type_synonym ('a, 'e) ctor = "'e \<Rightarrow> 'e \<times> (exn + 'a)"

section \<open>The standard algorithms the source calls\<close>

text \<open>
  A pointer into a block is the block (a list of slots) and an offset. Reading outside
  the block finds no object.
\<close>

definition slot_at :: "'a slot list \<Rightarrow> nat \<Rightarrow> 'a slot" where
  "slot_at b i = (if i < length b then b ! i else Raw)"

definition destroy_at ::
  "('a, 'e) elem_type \<Rightarrow> 'a slot list \<Rightarrow> nat \<Rightarrow> 'e \<Rightarrow> 'e \<times> 'a slot list \<times> fault option" where
  "destroy_at T b i e =
     (case slot_at b i of
        Raw \<Rightarrow> (e, b, Some Undefined_behaviour)
      | Live x \<Rightarrow> (T_destroy T x e, b[i := Raw], None))"

fun destroy_n ::
  "('a, 'e) elem_type \<Rightarrow> 'a slot list \<Rightarrow> nat \<Rightarrow> nat \<Rightarrow> 'e \<Rightarrow> 'e \<times> 'a slot list \<times> fault option" where
  "destroy_n T b first 0 e = (e, b, None)"
| "destroy_n T b first (Suc n) e =
     (case destroy_at T b first e of
        (e1, b1, None) \<Rightarrow> destroy_n T b1 (Suc first) n e1
      | (e1, b1, Some f) \<Rightarrow> (e1, b1, Some f))"

text \<open>
  The \<open>uninitialized_*_n\<close> algorithms construct \<open>n\<close> objects front to back; when a
  constructor throws they destroy the objects they have built so far and rethrow.
  \<open>i\<close> counts the objects built, the last numeric argument those still to build.
\<close>

fun uninitialized_value_construct_loop ::
  "('a, 'e) elem_type \<Rightarrow> 'a slot list \<Rightarrow> nat \<Rightarrow> nat \<Rightarrow> nat \<Rightarrow> 'e \<Rightarrow> 'e \<times> 'a slot list \<times> fault option" where
  "uninitialized_value_construct_loop T b first i 0 e = (e, b, None)"
| "uninitialized_value_construct_loop T b first i (Suc m) e =
     (if \<not> first + i < length b then (e, b, Some Undefined_behaviour)
      else case T_value_init T e of
        (e1, Inl x) \<Rightarrow>
          (case destroy_n T b first i e1 of (e2, b2, _) \<Rightarrow> (e2, b2, Some (Exception x)))
      | (e1, Inr y) \<Rightarrow>
          uninitialized_value_construct_loop T (b[first + i := Live y]) first (Suc i) m e1)"

definition uninitialized_value_construct_n ::
  "('a, 'e) elem_type \<Rightarrow> 'a slot list \<Rightarrow> nat \<Rightarrow> nat \<Rightarrow> 'e \<Rightarrow> 'e \<times> 'a slot list \<times> fault option" where
  "uninitialized_value_construct_n T b first n e = uninitialized_value_construct_loop T b first 0 n e"

text \<open>Source block \<open>src\<close> from \<open>sfirst\<close>, destination block \<open>dst\<close> from \<open>dfirst\<close>.\<close>

fun uninitialized_copy_loop ::
  "('a, 'e) elem_type \<Rightarrow> 'a slot list \<Rightarrow> nat \<Rightarrow> 'a slot list \<Rightarrow> nat \<Rightarrow> nat \<Rightarrow> nat \<Rightarrow> 'e
     \<Rightarrow> 'e \<times> 'a slot list \<times> fault option" where
  "uninitialized_copy_loop T src sfirst dst dfirst i 0 e = (e, dst, None)"
| "uninitialized_copy_loop T src sfirst dst dfirst i (Suc m) e =
     (case slot_at src (sfirst + i) of
        Raw \<Rightarrow> (e, dst, Some Undefined_behaviour)
      | Live x \<Rightarrow>
          if \<not> dfirst + i < length dst then (e, dst, Some Undefined_behaviour)
          else (case T_copy T x e of
            (e1, Inl ex) \<Rightarrow>
              (case destroy_n T dst dfirst i e1 of (e2, dst2, _) \<Rightarrow> (e2, dst2, Some (Exception ex)))
          | (e1, Inr y) \<Rightarrow>
              uninitialized_copy_loop T src sfirst (dst[dfirst + i := Live y]) dfirst (Suc i) m e1))"

definition uninitialized_copy_n ::
  "('a, 'e) elem_type \<Rightarrow> 'a slot list \<Rightarrow> nat \<Rightarrow> nat \<Rightarrow> 'a slot list \<Rightarrow> nat \<Rightarrow> 'e
     \<Rightarrow> 'e \<times> 'a slot list \<times> fault option" where
  "uninitialized_copy_n T src sfirst n dst dfirst e = uninitialized_copy_loop T src sfirst dst dfirst 0 n e"

text \<open>Moving changes the source block too: both blocks are returned.\<close>

fun uninitialized_move_loop ::
  "('a, 'e) elem_type \<Rightarrow> 'a slot list \<Rightarrow> nat \<Rightarrow> 'a slot list \<Rightarrow> nat \<Rightarrow> nat \<Rightarrow> nat \<Rightarrow> 'e
     \<Rightarrow> 'e \<times> 'a slot list \<times> 'a slot list \<times> fault option" where
  "uninitialized_move_loop T src sfirst dst dfirst i 0 e = (e, src, dst, None)"
| "uninitialized_move_loop T src sfirst dst dfirst i (Suc m) e =
     (case slot_at src (sfirst + i) of
        Raw \<Rightarrow> (e, src, dst, Some Undefined_behaviour)
      | Live x \<Rightarrow>
          if \<not> dfirst + i < length dst then (e, src, dst, Some Undefined_behaviour)
          else (case T_move T x e of
            (e1, x', Inl ex) \<Rightarrow>
              (case destroy_n T dst dfirst i e1 of
                 (e2, dst2, _) \<Rightarrow> (e2, src[sfirst + i := Live x'], dst2, Some (Exception ex)))
          | (e1, x', Inr y) \<Rightarrow>
              uninitialized_move_loop T (src[sfirst + i := Live x']) sfirst
                (dst[dfirst + i := Live y]) dfirst (Suc i) m e1))"

definition uninitialized_move_n ::
  "('a, 'e) elem_type \<Rightarrow> 'a slot list \<Rightarrow> nat \<Rightarrow> nat \<Rightarrow> 'a slot list \<Rightarrow> nat \<Rightarrow> 'e
     \<Rightarrow> 'e \<times> 'a slot list \<times> 'a slot list \<times> fault option" where
  "uninitialized_move_n T src sfirst n dst dfirst e = uninitialized_move_loop T src sfirst dst dfirst 0 n e"

text \<open>\<open>std::copy_n\<close> assigns onto objects that exist; nothing is undone when it throws.\<close>

fun copy_n ::
  "('a, 'e) elem_type \<Rightarrow> 'a slot list \<Rightarrow> nat \<Rightarrow> nat \<Rightarrow> 'a slot list \<Rightarrow> nat \<Rightarrow> 'e
     \<Rightarrow> 'e \<times> 'a slot list \<times> fault option" where
  "copy_n T src sfirst 0 dst dfirst e = (e, dst, None)"
| "copy_n T src sfirst (Suc n) dst dfirst e =
     (case (slot_at src sfirst, slot_at dst dfirst) of
        (Live x, Live y) \<Rightarrow>
          (case T_copy_assign T y x e of
             (e1, y', Some ex) \<Rightarrow> (e1, dst[dfirst := Live y'], Some (Exception ex))
           | (e1, y', None) \<Rightarrow> copy_n T src (Suc sfirst) n (dst[dfirst := Live y']) (Suc dfirst) e1)
      | _ \<Rightarrow> (e, dst, Some Undefined_behaviour))"

text \<open>
  \<open>std::move(first, last, d_first)\<close> and \<open>std::move_backward(first, last, d_last)\<close>
  inside one block: \<open>*d = std::move(*s)\<close> front to back, respectively back to front.
  Both require a valid range and a destination outside it.
\<close>

fun move_loop ::
  "('a, 'e) elem_type \<Rightarrow> 'a slot list \<Rightarrow> nat \<Rightarrow> nat \<Rightarrow> nat \<Rightarrow> 'e \<Rightarrow> 'e \<times> 'a slot list \<times> fault option" where
  "move_loop T b s d 0 e = (e, b, None)"
| "move_loop T b s d (Suc n) e =
     (case (slot_at b s, slot_at b d) of
        (Live x, Live y) \<Rightarrow>
          if s = d then (e, b, Some Undefined_behaviour)
          else (case T_move_assign T y x e of
             (e1, y', x', Some ex) \<Rightarrow> (e1, b[d := Live y', s := Live x'], Some (Exception ex))
           | (e1, y', x', None) \<Rightarrow> move_loop T (b[d := Live y', s := Live x']) (Suc s) (Suc d) n e1)
      | _ \<Rightarrow> (e, b, Some Undefined_behaviour))"

definition move_range ::
  "('a, 'e) elem_type \<Rightarrow> 'a slot list \<Rightarrow> nat \<Rightarrow> nat \<Rightarrow> nat \<Rightarrow> 'e \<Rightarrow> 'e \<times> 'a slot list \<times> fault option" where
  "move_range T b first lastp d_first e =
     (if lastp < first then (e, b, Some Undefined_behaviour)
      else move_loop T b first d_first (lastp - first) e)"

fun move_backward_loop ::
  "('a, 'e) elem_type \<Rightarrow> 'a slot list \<Rightarrow> nat \<Rightarrow> nat \<Rightarrow> nat \<Rightarrow> 'e \<Rightarrow> 'e \<times> 'a slot list \<times> fault option" where
  "move_backward_loop T b lastp d_last 0 e = (e, b, None)"
| "move_backward_loop T b lastp d_last (Suc n) e =
     (if lastp = 0 \<or> d_last = 0 then (e, b, Some Undefined_behaviour)
      else case (slot_at b (lastp - 1), slot_at b (d_last - 1)) of
        (Live x, Live y) \<Rightarrow>
          if lastp = d_last then (e, b, Some Undefined_behaviour)
          else (case T_move_assign T y x e of
             (e1, y', x', Some ex) \<Rightarrow>
               (e1, b[d_last - 1 := Live y', lastp - 1 := Live x'], Some (Exception ex))
           | (e1, y', x', None) \<Rightarrow>
               move_backward_loop T (b[d_last - 1 := Live y', lastp - 1 := Live x'])
                 (lastp - 1) (d_last - 1) n e1)
      | _ \<Rightarrow> (e, b, Some Undefined_behaviour))"

definition move_backward ::
  "('a, 'e) elem_type \<Rightarrow> 'a slot list \<Rightarrow> nat \<Rightarrow> nat \<Rightarrow> nat \<Rightarrow> 'e \<Rightarrow> 'e \<times> 'a slot list \<times> fault option" where
  "move_backward T b first lastp d_last e =
     (if lastp < first then (e, b, Some Undefined_behaviour)
      else move_backward_loop T b lastp d_last (lastp - first) e)"

section \<open>RawMemory\<close>

text \<open>
  The members \<open>buffer_\<close> and \<open>capacity_\<close> (a name cannot end in an underscore here, so
  the members are \<open>m_buffer\<close>, \<open>m_capacity\<close>, \<open>m_data\<close>, \<open>m_size\<close>). The block is the
  list of its slots; the null pointer is the empty block.
\<close>

record 'a RawMemory =
  m_buffer :: "'a slot list"
  m_capacity :: nat

definition RawMemory_default :: "'a RawMemory" where
  "RawMemory_default = \<lparr>m_buffer = [], m_capacity = 0\<rparr>"

definition Allocate :: "('a, 'e) elem_type \<Rightarrow> nat \<Rightarrow> 'e \<Rightarrow> 'e \<times> (exn + 'a slot list)" where
  "Allocate T n e =
     (if n \<noteq> 0 then
        (case operator_new T n e of
           (e1, True) \<Rightarrow> (e1, Inr (replicate n Raw))
         | (e1, False) \<Rightarrow> (e1, Inl Bad_alloc))
      else (e, Inr []))"

definition RawMemory_new :: "('a, 'e) elem_type \<Rightarrow> nat \<Rightarrow> 'e \<Rightarrow> 'e \<times> (exn + 'a RawMemory)" where
  "RawMemory_new T cap e =
     (case Allocate T cap e of
        (e1, Inl x) \<Rightarrow> (e1, Inl x)
      | (e1, Inr b) \<Rightarrow> (e1, Inr \<lparr>m_buffer = b, m_capacity = cap\<rparr>))"

definition RawMemory_Swap :: "'a RawMemory \<times> 'a RawMemory \<Rightarrow> 'a RawMemory \<times> 'a RawMemory" where
  "RawMemory_Swap p =
     (case p of (this, other) \<Rightarrow>
        (\<lparr>m_buffer = m_buffer other, m_capacity = m_capacity other\<rparr>,
         \<lparr>m_buffer = m_buffer this, m_capacity = m_capacity this\<rparr>))"

definition RawMemory_plus :: "'a RawMemory \<Rightarrow> nat \<Rightarrow> fault + nat" where
  "RawMemory_plus m offset = (if offset \<le> m_capacity m then Inr offset else Inl Assertion_failed)"

definition RawMemory_index :: "'a RawMemory \<Rightarrow> nat \<Rightarrow> fault + nat" where
  "RawMemory_index m index = (if index < m_capacity m then Inr index else Inl Assertion_failed)"

definition RawMemory_Capacity :: "'a RawMemory \<Rightarrow> nat" where
  "RawMemory_Capacity m = m_capacity m"

text \<open>
  \<open>new (m + offset) T(args...)\<close>: the address is computed by \<open>operator+\<close>, then the
  constructor runs, and only if it returns is there an object in the slot.
\<close>

definition placement_new ::
  "'a RawMemory \<Rightarrow> nat \<Rightarrow> ('a, 'e) ctor \<Rightarrow> 'e \<Rightarrow> 'e \<times> 'a RawMemory \<times> fault option" where
  "placement_new m offset mk e =
     (case RawMemory_plus m offset of
        Inl f \<Rightarrow> (e, m, Some f)
      | Inr a \<Rightarrow>
          if \<not> a < length (m_buffer m) then (e, m, Some Undefined_behaviour)
          else (case mk e of
             (e1, Inl x) \<Rightarrow> (e1, m, Some (Exception x))
           | (e1, Inr y) \<Rightarrow> (e1, m\<lparr>m_buffer := (m_buffer m)[a := Live y]\<rparr>, None)))"

text \<open>\<open>new (m + offset) T(std::move(*(m.GetAddress() + src)))\<close>.\<close>

definition placement_new_move ::
  "('a, 'e) elem_type \<Rightarrow> 'a RawMemory \<Rightarrow> nat \<Rightarrow> nat \<Rightarrow> 'e \<Rightarrow> 'e \<times> 'a RawMemory \<times> fault option" where
  "placement_new_move T m offset src e =
     (case RawMemory_plus m offset of
        Inl f \<Rightarrow> (e, m, Some f)
      | Inr a \<Rightarrow>
          if \<not> a < length (m_buffer m) then (e, m, Some Undefined_behaviour)
          else (case slot_at (m_buffer m) src of
             Raw \<Rightarrow> (e, m, Some Undefined_behaviour)
           | Live x \<Rightarrow>
               (case T_move T x e of
                  (e1, x', Inl ex) \<Rightarrow>
                    (e1, m\<lparr>m_buffer := (m_buffer m)[src := Live x']\<rparr>, Some (Exception ex))
                | (e1, x', Inr y) \<Rightarrow>
                    (e1, m\<lparr>m_buffer := (m_buffer m)[src := Live x', a := Live y]\<rparr>, None))))"

section \<open>Vector\<close>

record 'a Vector =
  m_data :: "'a RawMemory"
  m_size :: nat

definition Vector_default :: "'a Vector" where
  "Vector_default = \<lparr>m_data = RawMemory_default, m_size = 0\<rparr>"

definition Size :: "'a Vector \<Rightarrow> nat" where
  "Size v = m_size v"

definition Capacity :: "'a Vector \<Rightarrow> nat" where
  "Capacity v = RawMemory_Capacity (m_data v)"

text \<open>\<open>explicit Vector(size_t size)\<close>: when the body throws, no vector comes to exist.\<close>

definition Vector_sized :: "('a, 'e) elem_type \<Rightarrow> nat \<Rightarrow> 'e \<Rightarrow> 'e \<times> (fault + 'a Vector)" where
  "Vector_sized T n e =
     (case RawMemory_new T n e of
        (e1, Inl x) \<Rightarrow> (e1, Inl (Exception x))
      | (e1, Inr d) \<Rightarrow>
          (case uninitialized_value_construct_n T (m_buffer d) 0 n e1 of
             (e2, b, Some f) \<Rightarrow> (e2, Inl f)
           | (e2, b, None) \<Rightarrow> (e2, Inr \<lparr>m_data = d\<lparr>m_buffer := b\<rparr>, m_size = n\<rparr>)))"

definition Vector_copy :: "('a, 'e) elem_type \<Rightarrow> 'a Vector \<Rightarrow> 'e \<Rightarrow> 'e \<times> (fault + 'a Vector)" where
  "Vector_copy T other e =
     (case RawMemory_new T (m_size other) e of
        (e1, Inl x) \<Rightarrow> (e1, Inl (Exception x))
      | (e1, Inr d) \<Rightarrow>
          (case uninitialized_copy_n T (m_buffer (m_data other)) 0 (m_size other) (m_buffer d) 0 e1 of
             (e2, b, Some f) \<Rightarrow> (e2, Inl f)
           | (e2, b, None) \<Rightarrow> (e2, Inr \<lparr>m_data = d\<lparr>m_buffer := b\<rparr>, m_size = m_size other\<rparr>)))"

text \<open>\<open>Swap\<close> on two distinct objects: \<open>(this, other)\<close> before, \<open>(this, other)\<close> after.\<close>

definition Swap :: "'a Vector \<times> 'a Vector \<Rightarrow> 'a Vector \<times> 'a Vector" where
  "Swap p =
     (case p of (this, other) \<Rightarrow>
        (case RawMemory_Swap (m_data this, m_data other) of
           (d1, d2) \<Rightarrow> (\<lparr>m_data = d1, m_size = m_size other\<rparr>, \<lparr>m_data = d2, m_size = m_size this\<rparr>)))"

text \<open>
  \<open>Vector(Vector&& other)\<close>: the members of the new object get their default
  initialisers, then \<open>Swap(other)\<close>. The result is the new object and \<open>other\<close>.
\<close>

definition Vector_move :: "'a Vector \<Rightarrow> 'a Vector \<times> 'a Vector" where
  "Vector_move other = Swap (Vector_default, other)"

text \<open>\<open>~Vector\<close>: destroys the elements; the block is then released by \<open>~RawMemory\<close>.\<close>

definition Vector_dtor :: "('a, 'e) elem_type \<Rightarrow> 'a Vector \<Rightarrow> 'e \<Rightarrow> 'e \<times> fault option" where
  "Vector_dtor T v e =
     (case destroy_n T (m_buffer (m_data v)) 0 (m_size v) e of (e1, b, f) \<Rightarrow> (e1, f))"

definition MoveOrCopyData ::
  "('a, 'e) elem_type \<Rightarrow> 'a RawMemory \<Rightarrow> 'a RawMemory \<Rightarrow> nat \<Rightarrow> 'e
     \<Rightarrow> 'e \<times> 'a RawMemory \<times> 'a RawMemory \<times> fault option" where
  "MoveOrCopyData T dat new_data n e =
     (if is_nothrow_move_constructible_v T \<or> \<not> is_copy_constructible_v T then
        (case uninitialized_move_n T (m_buffer dat) 0 n (m_buffer new_data) 0 e of
           (e1, src, dst, f) \<Rightarrow> (e1, dat\<lparr>m_buffer := src\<rparr>, new_data\<lparr>m_buffer := dst\<rparr>, f))
      else
        (case uninitialized_copy_n T (m_buffer dat) 0 n (m_buffer new_data) 0 e of
           (e1, dst, f) \<Rightarrow> (e1, dat, new_data\<lparr>m_buffer := dst\<rparr>, f)))"

definition Reserve ::
  "('a, 'e) elem_type \<Rightarrow> nat \<Rightarrow> 'a Vector \<Rightarrow> 'e \<Rightarrow> 'e \<times> 'a Vector \<times> fault option" where
  "Reserve T new_capacity v e =
     (if new_capacity \<le> Capacity v then (e, v, None)
      else (case RawMemory_new T new_capacity e of
         (e1, Inl x) \<Rightarrow> (e1, v, Some (Exception x))
       | (e1, Inr new_data) \<Rightarrow>
           (case MoveOrCopyData T (m_data v) new_data (m_size v) e1 of
              (e2, dat, new_data1, Some f) \<Rightarrow> (e2, v\<lparr>m_data := dat\<rparr>, Some f)
            | (e2, dat, new_data1, None) \<Rightarrow>
                (case destroy_n T (m_buffer dat) 0 (m_size v) e2 of
                   (e3, b, Some f) \<Rightarrow> (e3, v\<lparr>m_data := dat\<lparr>m_buffer := b\<rparr>\<rparr>, Some f)
                 | (e3, b, None) \<Rightarrow>
                     (case RawMemory_Swap (dat\<lparr>m_buffer := b\<rparr>, new_data1) of
                        (d1, d2) \<Rightarrow> (e3, v\<lparr>m_data := d1\<rparr>, None))))))"

definition Resize ::
  "('a, 'e) elem_type \<Rightarrow> nat \<Rightarrow> 'a Vector \<Rightarrow> 'e \<Rightarrow> 'e \<times> 'a Vector \<times> fault option" where
  "Resize T new_size v e =
     (if new_size < m_size v then
        (case destroy_n T (m_buffer (m_data v)) new_size (m_size v - new_size) e of
           (e1, b, Some f) \<Rightarrow> (e1, v\<lparr>m_data := (m_data v)\<lparr>m_buffer := b\<rparr>\<rparr>, Some f)
         | (e1, b, None) \<Rightarrow> (e1, v\<lparr>m_data := (m_data v)\<lparr>m_buffer := b\<rparr>, m_size := new_size\<rparr>, None))
      else
        (case Reserve T new_size v e of
           (e1, v1, Some f) \<Rightarrow> (e1, v1, Some f)
         | (e1, v1, None) \<Rightarrow>
             (case uninitialized_value_construct_n T (m_buffer (m_data v1)) (m_size v1)
                     (new_size - m_size v1) e1 of
                (e2, b, Some f) \<Rightarrow> (e2, v1\<lparr>m_data := (m_data v1)\<lparr>m_buffer := b\<rparr>\<rparr>, Some f)
              | (e2, b, None) \<Rightarrow>
                  (e2, v1\<lparr>m_data := (m_data v1)\<lparr>m_buffer := b\<rparr>, m_size := new_size\<rparr>, None))))"

text \<open>
  \<open>EmplaceBack(args...)\<close>. The constructor arguments are taken not to refer into the
  vector's own block. The returned reference is to the slot \<open>size_ - 1\<close> of the result.
\<close>

definition EmplaceBack ::
  "('a, 'e) elem_type \<Rightarrow> ('a, 'e) ctor \<Rightarrow> 'a Vector \<Rightarrow> 'e \<Rightarrow> 'e \<times> 'a Vector \<times> fault option" where
  "EmplaceBack T mk v e =
     (if m_size v = Capacity v then
        (case RawMemory_new T (if m_size v = 0 then 1 else m_size v * 2) e of
           (e1, Inl x) \<Rightarrow> (e1, v, Some (Exception x))
         | (e1, Inr new_data) \<Rightarrow>
             (case placement_new new_data (m_size v) mk e1 of
                (e2, new_data1, Some f) \<Rightarrow> (e2, v, Some f)
              | (e2, new_data1, None) \<Rightarrow>
                  (case MoveOrCopyData T (m_data v) new_data1 (m_size v) e2 of
                     (e3, dat, new_data2, Some f) \<Rightarrow> (e3, v\<lparr>m_data := dat\<rparr>, Some f)
                   | (e3, dat, new_data2, None) \<Rightarrow>
                       (case destroy_n T (m_buffer dat) 0 (m_size v) e3 of
                          (e4, b, Some f) \<Rightarrow> (e4, v\<lparr>m_data := dat\<lparr>m_buffer := b\<rparr>\<rparr>, Some f)
                        | (e4, b, None) \<Rightarrow>
                            (case RawMemory_Swap (dat\<lparr>m_buffer := b\<rparr>, new_data2) of
                               (d1, d2) \<Rightarrow> (e4, v\<lparr>m_data := d1, m_size := m_size v + 1\<rparr>, None))))))
      else
        (case placement_new (m_data v) (m_size v) mk e of
           (e1, dat, Some f) \<Rightarrow> (e1, v\<lparr>m_data := dat\<rparr>, Some f)
         | (e1, dat, None) \<Rightarrow> (e1, v\<lparr>m_data := dat, m_size := m_size v + 1\<rparr>, None)))"

text \<open>
  \<open>PushBack(const T&)\<close> constructs the new element by \<open>T\<close>'s copy constructor,
  \<open>PushBack(T&&)\<close> by its move constructor (what is left in the caller's object is of
  no concern to the vector).
\<close>

definition PushBack ::
  "('a, 'e) elem_type \<Rightarrow> 'a \<Rightarrow> 'a Vector \<Rightarrow> 'e \<Rightarrow> 'e \<times> 'a Vector \<times> fault option" where
  "PushBack T val v e = EmplaceBack T (T_copy T val) v e"

definition PushBack_rvalue ::
  "('a, 'e) elem_type \<Rightarrow> 'a \<Rightarrow> 'a Vector \<Rightarrow> 'e \<Rightarrow> 'e \<times> 'a Vector \<times> fault option" where
  "PushBack_rvalue T val v e =
     EmplaceBack T (\<lambda>e0. case T_move T val e0 of (e1, val', r) \<Rightarrow> (e1, r)) v e"

text \<open>\<open>end() - 1\<close> of an empty vector points before the block.\<close>

definition PopBack ::
  "('a, 'e) elem_type \<Rightarrow> 'a Vector \<Rightarrow> 'e \<Rightarrow> 'e \<times> 'a Vector \<times> fault option" where
  "PopBack T v e =
     (if m_size v = 0 then (e, v, Some Undefined_behaviour)
      else (case destroy_at T (m_buffer (m_data v)) (m_size v - 1) e of
         (e1, b, Some f) \<Rightarrow> (e1, v\<lparr>m_data := (m_data v)\<lparr>m_buffer := b\<rparr>\<rparr>, Some f)
       | (e1, b, None) \<Rightarrow>
           (e1, v\<lparr>m_data := (m_data v)\<lparr>m_buffer := b\<rparr>, m_size := m_size v - 1\<rparr>, None)))"

text \<open>
  Positions (\<open>const_iterator pos\<close>) are offsets \<open>index_ = pos - begin()\<close>. A position
  past \<open>end()\<close> is outside the contract: \<open>size_ - index_\<close> wraps and the transfers run
  off the block. The returned iterator is \<open>begin() + index_\<close> of the result.
\<close>

definition EmplaceRealloc ::
  "('a, 'e) elem_type \<Rightarrow> nat \<Rightarrow> ('a, 'e) ctor \<Rightarrow> 'a Vector \<Rightarrow> 'e \<Rightarrow> 'e \<times> 'a Vector \<times> fault option" where
  "EmplaceRealloc T index mk v e =
     (if m_size v < index then (e, v, Some Undefined_behaviour)
      else (case RawMemory_new T (if m_size v = 0 then 1 else m_size v * 2) e of
         (e1, Inl x) \<Rightarrow> (e1, v, Some (Exception x))
       | (e1, Inr new_data) \<Rightarrow>
      (case placement_new new_data index mk e1 of
         (e2, nd, Some f) \<Rightarrow> (e2, v, Some f)
       | (e2, nd, None) \<Rightarrow>
      (case
         (if is_nothrow_move_constructible_v T \<or> \<not> is_copy_constructible_v T then
            uninitialized_move_n T (m_buffer (m_data v)) 0 index (m_buffer nd) 0 e2
          else
            (case uninitialized_copy_n T (m_buffer (m_data v)) 0 index (m_buffer nd) 0 e2 of
               (e3, dst, Some (Exception x)) \<Rightarrow>
                 (case destroy_at T dst index e3 of
                    (e4, dst1, _) \<Rightarrow> (e4, m_buffer (m_data v), dst1, Some (Exception x)))
             | (e3, dst, f) \<Rightarrow> (e3, m_buffer (m_data v), dst, f)))
       of
         (e3, src1, dst1, Some f) \<Rightarrow> (e3, v\<lparr>m_data := (m_data v)\<lparr>m_buffer := src1\<rparr>\<rparr>, Some f)
       | (e3, src1, dst1, None) \<Rightarrow>
      (case
         (if is_nothrow_move_constructible_v T \<or> \<not> is_copy_constructible_v T then
            uninitialized_move_n T src1 index (m_size v - index) dst1 (index + 1) e3
          else
            (case uninitialized_copy_n T src1 index (m_size v - index) dst1 (index + 1) e3 of
               (e4, dst, Some (Exception x)) \<Rightarrow>
                 (case destroy_n T dst 0 index e4 of
                    (e5, dst2, _) \<Rightarrow> (e5, src1, dst2, Some (Exception x)))
             | (e4, dst, f) \<Rightarrow> (e4, src1, dst, f)))
       of
         (e4, src2, dst2, Some f) \<Rightarrow> (e4, v\<lparr>m_data := (m_data v)\<lparr>m_buffer := src2\<rparr>\<rparr>, Some f)
       | (e4, src2, dst2, None) \<Rightarrow>
      (case destroy_n T src2 0 (m_size v) e4 of
         (e5, b, Some f) \<Rightarrow> (e5, v\<lparr>m_data := (m_data v)\<lparr>m_buffer := b\<rparr>\<rparr>, Some f)
       | (e5, b, None) \<Rightarrow>
           (case RawMemory_Swap ((m_data v)\<lparr>m_buffer := b\<rparr>, nd\<lparr>m_buffer := dst2\<rparr>) of
              (d1, d2) \<Rightarrow> (e5, v\<lparr>m_data := d1, m_size := m_size v + 1\<rparr>, None))))))))"

definition EmplaceMove ::
  "('a, 'e) elem_type \<Rightarrow> nat \<Rightarrow> ('a, 'e) ctor \<Rightarrow> 'a Vector \<Rightarrow> 'e \<Rightarrow> 'e \<times> 'a Vector \<times> fault option" where
  "EmplaceMove T index mk v e =
     (if m_size v < index then (e, v, Some Undefined_behaviour)
      else (case
         (if m_size v \<noteq> 0 then
            (case placement_new_move T (m_data v) (m_size v) (m_size v - 1) e of
               (e1, dat, Some f) \<Rightarrow> (e1, dat, Some f)
             | (e1, dat, None) \<Rightarrow>
                 (case move_backward T (m_buffer dat) index (m_size v) (m_size v + 1) e1 of
                    (e2, b, Some (Exception x)) \<Rightarrow>
                      (case destroy_at T b (m_size v) e2 of
                         (e3, b1, _) \<Rightarrow> (e3, dat\<lparr>m_buffer := b1\<rparr>, Some (Exception x)))
                  | (e2, b, Some f) \<Rightarrow> (e2, dat\<lparr>m_buffer := b\<rparr>, Some f)
                  | (e2, b, None) \<Rightarrow>
                      (case destroy_at T b index e2 of
                         (e3, b1, f) \<Rightarrow> (e3, dat\<lparr>m_buffer := b1\<rparr>, f))))
          else (e, m_data v, None))
       of
         (e1, dat, Some f) \<Rightarrow> (e1, v\<lparr>m_data := dat\<rparr>, Some f)
       | (e1, dat, None) \<Rightarrow>
           (case placement_new dat index mk e1 of
              (e2, dat1, Some f) \<Rightarrow> (e2, v\<lparr>m_data := dat1\<rparr>, Some f)
            | (e2, dat1, None) \<Rightarrow> (e2, v\<lparr>m_data := dat1, m_size := m_size v + 1\<rparr>, None))))"

definition Emplace ::
  "('a, 'e) elem_type \<Rightarrow> nat \<Rightarrow> ('a, 'e) ctor \<Rightarrow> 'a Vector \<Rightarrow> 'e \<Rightarrow> 'e \<times> 'a Vector \<times> fault option" where
  "Emplace T pos mk v e =
     (if m_size v = Capacity v then EmplaceRealloc T pos mk v e
      else EmplaceMove T pos mk v e)"

definition Insert ::
  "('a, 'e) elem_type \<Rightarrow> nat \<Rightarrow> 'a \<Rightarrow> 'a Vector \<Rightarrow> 'e \<Rightarrow> 'e \<times> 'a Vector \<times> fault option" where
  "Insert T pos val v e = Emplace T pos (T_copy T val) v e"

definition Insert_rvalue ::
  "('a, 'e) elem_type \<Rightarrow> nat \<Rightarrow> 'a \<Rightarrow> 'a Vector \<Rightarrow> 'e \<Rightarrow> 'e \<times> 'a Vector \<times> fault option" where
  "Insert_rvalue T pos val v e =
     Emplace T pos (\<lambda>e0. case T_move T val e0 of (e1, val', r) \<Rightarrow> (e1, r)) v e"

definition Erase ::
  "('a, 'e) elem_type \<Rightarrow> nat \<Rightarrow> 'a Vector \<Rightarrow> 'e \<Rightarrow> 'e \<times> 'a Vector \<times> fault option" where
  "Erase T pos v e =
     (case move_range T (m_buffer (m_data v)) (pos + 1) (m_size v) pos e of
        (e1, b, Some f) \<Rightarrow> (e1, v\<lparr>m_data := (m_data v)\<lparr>m_buffer := b\<rparr>\<rparr>, Some f)
      | (e1, b, None) \<Rightarrow> PopBack T (v\<lparr>m_data := (m_data v)\<lparr>m_buffer := b\<rparr>\<rparr>) e1)"

text \<open>\<open>operator[]\<close> hands out a reference; the model reads the object behind it.\<close>

definition Vector_index :: "'a Vector \<Rightarrow> nat \<Rightarrow> fault + 'a" where
  "Vector_index v index =
     (if \<not> index < m_size v then Inl Assertion_failed
      else (case RawMemory_index (m_data v) index of
         Inl f \<Rightarrow> Inl f
       | Inr a \<Rightarrow> (case slot_at (m_buffer (m_data v)) a of
                    Raw \<Rightarrow> Inl Undefined_behaviour
                  | Live x \<Rightarrow> Inr x)))"

text \<open>
  The body of \<open>operator=(const Vector& rhs)\<close> under \<open>this != &rhs\<close>: two distinct
  objects, of which only \<open>this\<close> changes.
\<close>

definition copy_assign_distinct ::
  "('a, 'e) elem_type \<Rightarrow> 'a Vector \<Rightarrow> 'a Vector \<Rightarrow> 'e \<Rightarrow> 'e \<times> 'a Vector \<times> fault option" where
  "copy_assign_distinct T this rhs e =
     (if m_size rhs > RawMemory_Capacity (m_data this) then
        (case Vector_copy T rhs e of
           (e1, Inl f) \<Rightarrow> (e1, this, Some f)
         | (e1, Inr rhs_copy) \<Rightarrow>
             (case Swap (this, rhs_copy) of
                (this1, rhs_copy1) \<Rightarrow>
                  (case Vector_dtor T rhs_copy1 e1 of (e2, f) \<Rightarrow> (e2, this1, f))))
      else
        (case
           (if m_size rhs \<le> m_size this then
              (case destroy_n T (m_buffer (m_data this)) (m_size rhs) (m_size this - m_size rhs) e of
                 (e1, b, f) \<Rightarrow> (e1, b, m_size rhs, f))
            else
              (case uninitialized_copy_n T (m_buffer (m_data rhs)) (m_size this)
                      (m_size rhs - m_size this) (m_buffer (m_data this)) (m_size this) e of
                 (e1, b, f) \<Rightarrow> (e1, b, m_size this, f)))
         of
           (e1, b, copy_size, Some f) \<Rightarrow> (e1, this\<lparr>m_data := (m_data this)\<lparr>m_buffer := b\<rparr>\<rparr>, Some f)
         | (e1, b, copy_size, None) \<Rightarrow>
             (case copy_n T (m_buffer (m_data rhs)) 0 copy_size b 0 e1 of
                (e2, b1, Some f) \<Rightarrow> (e2, this\<lparr>m_data := (m_data this)\<lparr>m_buffer := b1\<rparr>\<rparr>, Some f)
              | (e2, b1, None) \<Rightarrow>
                  (e2, this\<lparr>m_data := (m_data this)\<lparr>m_buffer := b1\<rparr>, m_size := m_size rhs\<rparr>, None))))"

section \<open>Objects with an address\<close>

text \<open>
  Assignment and \<open>Swap\<close> take two objects that may be one and the same. The vectors of
  a program live in a store, at addresses; \<open>this\<close> and \<open>rhs\<close> are addresses.
\<close>

type_synonym 'a store = "nat \<Rightarrow> 'a Vector"

definition Swap_at :: "'a store \<Rightarrow> nat \<Rightarrow> nat \<Rightarrow> 'a store" where
  "Swap_at st this other =
     (case Swap (st this, st other) of (v1, v2) \<Rightarrow> st(this := v1, other := v2))"

definition assign_copy ::
  "('a, 'e) elem_type \<Rightarrow> 'a store \<Rightarrow> nat \<Rightarrow> nat \<Rightarrow> 'e \<Rightarrow> 'e \<times> 'a store \<times> fault option" where
  "assign_copy T st this rhs e =
     (if this \<noteq> rhs then
        (case copy_assign_distinct T (st this) (st rhs) e of
           (e1, v, f) \<Rightarrow> (e1, st(this := v), f))
      else (e, st, None))"

definition assign_move :: "'a store \<Rightarrow> nat \<Rightarrow> nat \<Rightarrow> 'a store" where
  "assign_move st this rhs = Swap_at st this rhs"

text \<open>\<open>Vector(Vector&&)\<close> building a new object at the address \<open>this\<close>.\<close>

definition construct_move_at :: "'a store \<Rightarrow> nat \<Rightarrow> nat \<Rightarrow> 'a store" where
  "construct_move_at st this other = Swap_at (st(this := Vector_default)) this other"

section \<open>Sequences of appends, and the doubling rule of the specification\<close>

text \<open>
  Appending one element after the other, stopping at the first call that fails:
  \<open>append_all\<close> by \<open>EmplaceBack\<close> with given constructor calls, \<open>PushBack_all\<close> the values
  of a list by \<open>PushBack(const T&)\<close>.
\<close>

fun append_all ::
  "('a, 'e) elem_type \<Rightarrow> ('a, 'e) ctor list \<Rightarrow> 'a Vector \<Rightarrow> 'e \<Rightarrow> 'e \<times> 'a Vector \<times> fault option" where
  "append_all T [] v e = (e, v, None)"
| "append_all T (mk # mks) v e =
     (case EmplaceBack T mk v e of
        (e1, v1, None) \<Rightarrow> append_all T mks v1 e1
      | (e1, v1, Some f) \<Rightarrow> (e1, v1, Some f))"

fun PushBack_all ::
  "('a, 'e) elem_type \<Rightarrow> 'a list \<Rightarrow> 'a Vector \<Rightarrow> 'e \<Rightarrow> 'e \<times> 'a Vector \<times> fault option" where
  "PushBack_all T [] v e = (e, v, None)"
| "PushBack_all T (x # xs) v e =
     (case PushBack T x v e of
        (e1, v1, None) \<Rightarrow> PushBack_all T xs v1 e1
      | (e1, v1, Some f) \<Rightarrow> (e1, v1, Some f))"

text \<open>
  The capacity after \<open>n\<close> appends as the specification words it: unchanged while there is
  spare capacity, \<open>max(1, 2 \<times> capacity)\<close> when there is none.
\<close>

fun doubling_rule :: "nat \<Rightarrow> nat" where
  "doubling_rule 0 = 0"
| "doubling_rule (Suc n) =
     (if n < doubling_rule n then doubling_rule n else max 1 (2 * doubling_rule n))"

text \<open>A call that returns or throws, so that the program goes on with the vector.\<close>

fun goes_on :: "fault option \<Rightarrow> bool" where
  "goes_on None = True"
| "goes_on (Some (Exception x)) = True"
| "goes_on (Some Assertion_failed) = False"
| "goes_on (Some Undefined_behaviour) = False"

section \<open>What a vector holds\<close>

text \<open>
  \<open>live_range\<close>: the slots from \<open>begin()\<close> to \<open>end()\<close>. A vector is well formed when its
  block has \<open>capacity_\<close> slots, \<open>size_ \<le> capacity_\<close>, and every slot of that range holds
  an object. \<open>destroy_slot\<close>: the effect of destroying what a slot holds.
\<close>

definition live_range :: "'a Vector \<Rightarrow> 'a slot list" where
  "live_range v = take (m_size v) (m_buffer (m_data v))"

definition well_formed :: "'a Vector \<Rightarrow> bool" where
  "well_formed v =
     (length (m_buffer (m_data v)) = m_capacity (m_data v) \<and> m_size v \<le> m_capacity (m_data v)
      \<and> Raw \<notin> set (live_range v))"

definition destroy_slot :: "('a, 'e) elem_type \<Rightarrow> 'a slot \<Rightarrow> 'e \<Rightarrow> 'e" where
  "destroy_slot T s e = (case s of Raw \<Rightarrow> e | Live x \<Rightarrow> T_destroy T x e)"

section \<open>Properties an element type may have\<close>



text \<open>
  Value-preserving operations: a copy, a move or an assignment that returns has given the
  destination the value of the source, and \<open>T()\<close> gives the value \<open>d\<close>. What a move
  leaves in the source is not constrained. \<open>constructs mk x\<close>: the constructor call
  \<open>mk\<close>, when it returns, has built \<open>x\<close>.
\<close>

definition copy_keeps_value :: "('a, 'e) elem_type \<Rightarrow> bool" where
  "copy_keeps_value T = (\<forall>x e e1 y. T_copy T x e = (e1, Inr y) \<longrightarrow> y = x)"

definition move_keeps_value :: "('a, 'e) elem_type \<Rightarrow> bool" where
  "move_keeps_value T = (\<forall>x e e1 x' y. T_move T x e = (e1, x', Inr y) \<longrightarrow> y = x)"

definition copy_assign_keeps_value :: "('a, 'e) elem_type \<Rightarrow> bool" where
  "copy_assign_keeps_value T = (\<forall>y x e e1 y'. T_copy_assign T y x e = (e1, y', None) \<longrightarrow> y' = x)"


definition constructs :: "('a, 'e) ctor \<Rightarrow> 'a \<Rightarrow> bool" where
  "constructs mk x = (\<forall>e e1 y. mk e = (e1, Inr y) \<longrightarrow> y = x)"

text \<open>
  \<open>move_assign_keeps_value\<close>: a move assignment that returns has given the destination
  the value of the source. \<open>moves_leave_source\<close>: moving from an object (by construction or
  by assignment) leaves its value in place, as for \<open>int\<close> and every type whose move is a
  copy. \<open>never_fails\<close>: the copy constructor, the move constructor and the allocation
  always succeed.
\<close>

definition move_assign_keeps_value :: "('a, 'e) elem_type \<Rightarrow> bool" where
  "move_assign_keeps_value T =
     (\<forall>y x e e1 y' x'. T_move_assign T y x e = (e1, y', x', None) \<longrightarrow> y' = x)"

definition moves_leave_source :: "('a, 'e) elem_type \<Rightarrow> bool" where
  "moves_leave_source T =
     ((\<forall>x e e1 x' r. T_move T x e = (e1, x', r) \<longrightarrow> x' = x)
      \<and> (\<forall>y x e e1 y' x' r. T_move_assign T y x e = (e1, y', x', r) \<longrightarrow> x' = x))"

definition never_fails :: "('a, 'e) elem_type \<Rightarrow> bool" where
  "never_fails T =
     ((\<forall>x e. \<exists>e1 y. T_copy T x e = (e1, Inr y))
      \<and> (\<forall>x e. \<exists>e1 x' y. T_move T x e = (e1, x', Inr y))
      \<and> (\<forall>n e. \<exists>e1. operator_new T n e = (e1, True)))"

section \<open>Constructing the elements one after the other\<close>



section \<open>Element types and vectors for the examples\<close>

text \<open>
  \<open>Throwing\<close>: an \<open>int\<close>-like type whose constructors throw once a budget of
  constructions is used up (the state is the budget); its move constructor may throw.
  \<open>Plain_int\<close>: \<open>int\<close>. \<open>Unique_ptr\<close>: a \<open>std::unique_ptr\<close>, \<open>None\<close> the null
  pointer: moving from it leaves null behind, and it cannot be copied (the copy
  operations are deleted, no code that compiles reaches them). \<open>Counting\<close>: an
  \<open>int\<close>-like type that counts its copy constructions and its move constructions (the
  state is the two counters), with a move constructor declared \<open>noexcept\<close> or not.
\<close>

definition count_down :: "nat \<Rightarrow> 'a \<Rightarrow> nat \<times> (exn + 'a)" where
  "count_down e x = (if e = 0 then (e, Inl (Thrown 0)) else (e - 1, Inr x))"

definition Throwing :: "(int, nat) elem_type" where
  "Throwing =
     \<lparr>T_value_init = (\<lambda>e. count_down e 0),
      T_copy = (\<lambda>x e. count_down e x),
      T_move = (\<lambda>x e. case count_down e x of (e1, r) \<Rightarrow> (e1, x, r)),
      T_copy_assign = (\<lambda>y x e. (e, x, None)),
      T_move_assign = (\<lambda>y x e. (e, x, x, None)),
      T_destroy = (\<lambda>x e. e),
      operator_new = (\<lambda>n e. (e, True)),
      is_nothrow_move_constructible_v = False,
      is_copy_constructible_v = True\<rparr>"

definition Plain_int :: "(int, unit) elem_type" where
  "Plain_int =
     \<lparr>T_value_init = (\<lambda>e. (e, Inr 0)),
      T_copy = (\<lambda>x e. (e, Inr x)),
      T_move = (\<lambda>x e. (e, x, Inr x)),
      T_copy_assign = (\<lambda>y x e. (e, x, None)),
      T_move_assign = (\<lambda>y x e. (e, x, x, None)),
      T_destroy = (\<lambda>x e. e),
      operator_new = (\<lambda>n e. (e, True)),
      is_nothrow_move_constructible_v = True,
      is_copy_constructible_v = True\<rparr>"

definition Unique_ptr :: "(nat option, unit) elem_type" where
  "Unique_ptr =
     \<lparr>T_value_init = (\<lambda>e. (e, Inr None)),
      T_copy = (\<lambda>x e. (e, Inl (Thrown 0))),
      T_move = (\<lambda>x e. (e, None, Inr x)),
      T_copy_assign = (\<lambda>y x e. (e, y, Some (Thrown 0))),
      T_move_assign = (\<lambda>y x e. (e, x, None, None)),
      T_destroy = (\<lambda>x e. e),
      operator_new = (\<lambda>n e. (e, True)),
      is_nothrow_move_constructible_v = True,
      is_copy_constructible_v = False\<rparr>"




text \<open>
  Vectors of \<open>int\<close>, named after what they hold, and a store with two of them.
\<close>

definition vec_7 :: "int Vector" where
  "vec_7 = \<lparr>m_data = \<lparr>m_buffer = [Live 7], m_capacity = 1\<rparr>, m_size = 1\<rparr>"

definition vec_123 :: "int Vector" where
  "vec_123 = \<lparr>m_data = \<lparr>m_buffer = [Live 1, Live 2, Live 3, Raw], m_capacity = 4\<rparr>, m_size = 3\<rparr>"



definition two_vectors :: "int store" where
  "two_vectors = (\<lambda>a. Vector_default)(0 := vec_7, 1 := vec_123)"

text \<open>
  Vectors of \<open>Unique_ptr\<close>: \<open>make_ptr n\<close> is \<open>T(new int(n))\<close>; \<open>ptrs_12\<close> holds two
  pointers and has room for four.
\<close>

definition make_ptr :: "nat \<Rightarrow> (nat option, unit) ctor" where
  "make_ptr n e = (e, Inr (Some n))"

definition ptrs_12_tight :: "nat option Vector" where
  "ptrs_12_tight =
     \<lparr>m_data = \<lparr>m_buffer = [Live (Some 1), Live (Some 2)], m_capacity = 2\<rparr>, m_size = 2\<rparr>"

definition ptrs_12 :: "nat option Vector" where
  "ptrs_12 =
     \<lparr>m_data = \<lparr>m_buffer = [Live (Some 1), Live (Some 2), Raw, Raw], m_capacity = 4\<rparr>, m_size = 2\<rparr>"

definition ptrs_01_null :: "nat option Vector" where
  "ptrs_01_null =
     \<lparr>m_data = \<lparr>m_buffer = [Live (Some 0), Live (Some 1), Live None, Raw], m_capacity = 4\<rparr>,
      m_size = 3\<rparr>"

definition ptrs_1_null_0 :: "nat option Vector" where
  "ptrs_1_null_0 =
     \<lparr>m_data = \<lparr>m_buffer = [Live (Some 1), Live None, Live (Some 0), Raw], m_capacity = 4\<rparr>,
      m_size = 3\<rparr>"





section \<open>Basic facts\<close>

lemma RawMemory_new_Inr:
  "RawMemory_new T c e = (e1, Inr nd) \<Longrightarrow> m_capacity nd = c \<and> m_buffer nd = replicate c Raw"
  by (auto simp: RawMemory_new_def Allocate_def split: if_splits prod.splits bool.splits sum.splits)


lemma placement_new_capacity:
  "placement_new m a mk e = (e1, m1, r) \<Longrightarrow> m_capacity m1 = m_capacity m"
  by (auto simp: placement_new_def RawMemory_plus_def split: if_splits prod.splits sum.splits)

lemma placement_new_move_capacity:
  "placement_new_move T m a s e = (e1, m1, r) \<Longrightarrow> m_capacity m1 = m_capacity m"
  by (auto simp: placement_new_move_def RawMemory_plus_def
      split: if_splits prod.splits sum.splits slot.splits)

lemma MoveOrCopyData_capacity:
  "MoveOrCopyData T d nd n e = (e1, d1, nd1, r) \<Longrightarrow>
     m_capacity d1 = m_capacity d \<and> m_capacity nd1 = m_capacity nd"
  by (auto simp: MoveOrCopyData_def split: if_splits prod.splits)

lemma Swap_eq: "Swap (a, b) = (b, a)"
  by (simp add: Swap_def RawMemory_Swap_def)

lemma Vector_move_eq: "Vector_move other = (other, Vector_default)"
  by (simp add: Vector_move_def Swap_eq)

lemma assign_move_eq: "assign_move st this rhs = st(this := st rhs, rhs := st this)"
  by (simp add: assign_move_def Swap_at_def Swap_eq)

subsection \<open>Sizes and capacities\<close>

lemma EmplaceBack_size_capacity:
  assumes "EmplaceBack T mk v e = (e1, v1, None)"
  shows "m_size v1 = m_size v + 1 \<and>
         Capacity v1 =
           (if m_size v = Capacity v then (if m_size v = 0 then 1 else m_size v * 2) else Capacity v)"
  using assms
  by (auto simp: EmplaceBack_def Capacity_def RawMemory_Capacity_def RawMemory_Swap_def
      split: if_splits prod.splits sum.splits option.splits
      dest!: RawMemory_new_Inr placement_new_capacity MoveOrCopyData_capacity)

lemma doubling_rule_ge: "n \<le> doubling_rule n"
  by (induction n) auto

lemma append_all_size_capacity:
  "append_all T mks v e = (e1, v1, None) \<Longrightarrow> m_size v = n \<Longrightarrow> Capacity v = doubling_rule n \<Longrightarrow>
   m_size v1 = n + length mks \<and> Capacity v1 = doubling_rule (n + length mks)"
proof (induction mks arbitrary: v e n)
  case Nil
  then show ?case by simp
next
  case (Cons mk mks)
  from Cons.prems(1) obtain e2 v2 where
    step: "EmplaceBack T mk v e = (e2, v2, None)" and rest: "append_all T mks v2 e2 = (e1, v1, None)"
    by (auto split: prod.splits option.splits)
  from EmplaceBack_size_capacity [OF step] Cons.prems(2,3)
  have "m_size v2 = Suc n" and "Capacity v2 = doubling_rule (Suc n)"
    using doubling_rule_ge [of n] by (auto simp: max_def)
  from Cons.IH [OF rest this] show ?case by simp
qed

lemma Vector_sized_inv:
  "Vector_sized T n e = (e1, Inr v1) \<Longrightarrow> m_size v1 = n \<and> Capacity v1 = n"
  by (auto simp: Vector_sized_def Capacity_def RawMemory_Capacity_def
      split: prod.splits sum.splits option.splits dest!: RawMemory_new_Inr)

lemma Vector_copy_inv:
  "Vector_copy T other e = (e1, Inr v1) \<Longrightarrow> m_size v1 = m_size other \<and> Capacity v1 = m_size other"
  by (auto simp: Vector_copy_def Capacity_def RawMemory_Capacity_def
      split: prod.splits sum.splits option.splits dest!: RawMemory_new_Inr)

lemma Reserve_inv:
  "Reserve T n v e = (e1, v1, r) \<Longrightarrow>
     m_size v1 = m_size v \<and> Capacity v \<le> Capacity v1 \<and> (r = None \<longrightarrow> n \<le> Capacity v1)"
  by (auto simp: Reserve_def Capacity_def RawMemory_Capacity_def RawMemory_Swap_def
      split: if_splits prod.splits sum.splits option.splits
      dest!: RawMemory_new_Inr MoveOrCopyData_capacity)

lemma Resize_inv:
  "Resize T n v e = (e1, v1, r) \<Longrightarrow> m_size v \<le> Capacity v \<Longrightarrow> m_size v1 \<le> Capacity v1"
  by (auto simp: Resize_def Capacity_def RawMemory_Capacity_def
      split: if_splits prod.splits sum.splits option.splits
      dest!: Reserve_inv [unfolded Capacity_def RawMemory_Capacity_def])

lemma EmplaceBack_inv:
  "EmplaceBack T mk v e = (e1, v1, r) \<Longrightarrow> m_size v \<le> Capacity v \<Longrightarrow> m_size v1 \<le> Capacity v1"
  by (auto simp: EmplaceBack_def Capacity_def RawMemory_Capacity_def RawMemory_Swap_def
      split: if_splits prod.splits sum.splits option.splits
      dest!: RawMemory_new_Inr placement_new_capacity MoveOrCopyData_capacity)

lemma PopBack_inv:
  "PopBack T v e = (e1, v1, r) \<Longrightarrow> m_size v \<le> Capacity v \<Longrightarrow> m_size v1 \<le> Capacity v1"
  by (auto simp: PopBack_def Capacity_def RawMemory_Capacity_def
      split: if_splits prod.splits sum.splits option.splits)

lemma Erase_inv:
  "Erase T pos v e = (e1, v1, r) \<Longrightarrow> m_size v \<le> Capacity v \<Longrightarrow> m_size v1 \<le> Capacity v1"
  by (auto simp: Erase_def Capacity_def RawMemory_Capacity_def
      split: if_splits prod.splits sum.splits option.splits
      dest!: PopBack_inv [unfolded Capacity_def RawMemory_Capacity_def])

lemma EmplaceRealloc_inv:
  "EmplaceRealloc T pos mk v e = (e1, v1, r) \<Longrightarrow> m_size v \<le> Capacity v \<Longrightarrow> m_size v1 \<le> Capacity v1"
  by (auto simp: EmplaceRealloc_def Capacity_def RawMemory_Capacity_def RawMemory_Swap_def
      split: if_splits prod.splits sum.splits option.splits
      dest!: RawMemory_new_Inr placement_new_capacity)

lemma EmplaceMove_inv:
  "EmplaceMove T pos mk v e = (e1, v1, r) \<Longrightarrow> m_size v < Capacity v \<Longrightarrow> m_size v1 \<le> Capacity v1"
  by (auto simp: EmplaceMove_def Capacity_def RawMemory_Capacity_def
      split: if_splits prod.splits sum.splits option.splits fault.splits
      dest!: placement_new_capacity placement_new_move_capacity)

lemma Emplace_inv:
  "Emplace T pos mk v e = (e1, v1, r) \<Longrightarrow> m_size v \<le> Capacity v \<Longrightarrow> m_size v1 \<le> Capacity v1"
  by (auto simp: Emplace_def dest: EmplaceRealloc_inv EmplaceMove_inv split: if_splits)

lemma copy_assign_distinct_inv:
  "copy_assign_distinct T this rhs e = (e1, v1, r) \<Longrightarrow> m_size this \<le> Capacity this \<Longrightarrow>
   m_size v1 \<le> Capacity v1"
  by (auto simp: copy_assign_distinct_def Capacity_def RawMemory_Capacity_def Swap_eq
      split: if_splits prod.splits sum.splits option.splits
      dest!: Vector_copy_inv [unfolded Capacity_def RawMemory_Capacity_def])

lemma assign_copy_inv:
  "assign_copy T st this rhs e = (e1, st1, r) \<Longrightarrow> \<forall>a. m_size (st a) \<le> Capacity (st a) \<Longrightarrow>
   m_size (st1 a) \<le> Capacity (st1 a)"
  by (auto simp: assign_copy_def split: if_splits prod.splits dest: copy_assign_distinct_inv)

section \<open>Self-assignment\<close>

text \<open>
  C10. Copy-assigning a vector to itself changes nothing: the store (every vector's size,
  capacity and slots) and the rest of the program come back as they were, so no element
  was copied, assigned or destroyed, whatever those operations of \<open>T\<close> do.
\<close>

theorem self_assignment_is_noop:
  "assign_copy T st a a e = (e, st, None)"
  by (simp add: assign_copy_def)

theorem self_assignment_is_noop_witness:
  "assign_copy Throwing two_vectors 1 1 0 = (0, two_vectors, None)"
  by (rule self_assignment_is_noop)

section \<open>Move construction and move assignment\<close>

text \<open>
  C2, as the code has it. Move construction gives the new vector the source's block and
  size and leaves the source default-constructed (size 0, no block). Move assignment is a
  swap: the destination gets the source's block and size, and the source gets what the
  destination held.
\<close>

theorem move_transfers_ownership:
  fixes other :: "'a Vector" and st :: "'a store"
  shows "Vector_move other = (other, Vector_default)
   \<and> m_size (Vector_default :: 'a Vector) = 0
   \<and> m_buffer (m_data (Vector_default :: 'a Vector)) = []
   \<and> (new \<noteq> src \<longrightarrow>
         construct_move_at st new src new = st src \<and> construct_move_at st new src src = Vector_default)
   \<and> assign_move st this rhs this = st rhs
   \<and> assign_move st this rhs rhs = st this"
  by (simp add: Vector_move_eq assign_move_eq construct_move_at_def Swap_at_def Swap_eq
      Vector_default_def RawMemory_default_def)

theorem move_transfers_ownership_witness:
  "Vector_move vec_123 = (vec_123, Vector_default)
   \<and> construct_move_at two_vectors 2 1 2 = vec_123
   \<and> construct_move_at two_vectors 2 1 1 = Vector_default
   \<and> assign_move two_vectors 0 1 0 = vec_123
   \<and> assign_move two_vectors 0 1 1 = vec_7"
  using move_transfers_ownership [of vec_123 2 1 two_vectors 0 1]
  by (simp add: two_vectors_def)

text \<open>
  The claim as stated fails for move assignment: assigning \<open>[1, 2, 3]\<close> into a vector
  that holds \<open>[7]\<close> leaves the source holding \<open>[7]\<close>, not empty.
\<close>

theorem move_assignment_source_not_empty:
  "assign_move two_vectors 0 1 0 = vec_123 \<and> m_size (assign_move two_vectors 0 1 1) \<noteq> 0"
  by (simp add: assign_move_eq two_vectors_def vec_7_def)

section \<open>Growth by doubling\<close>

text \<open>
  C5. After \<open>n\<close> successful appends to a default-constructed vector, \<open>Size()\<close> is \<open>n\<close> and
  the capacity is what the doubling rule gives after \<open>n\<close> steps from 0 (0, 1, 2, 4, 4, 8,
  ...); and one more successful append adds one to the size, leaves the capacity alone
  when there is spare capacity, and makes it \<open>max(1, 2 \<times> capacity)\<close> when there is none.
\<close>

theorem appends_follow_doubling_rule:
  fixes T :: "('a, 'e) elem_type" and v1 :: "'a Vector"
  assumes "append_all T mks Vector_default e = (e1, v1, None)"
  shows "Size v1 = length mks \<and> Capacity v1 = doubling_rule (length mks)
    \<and> (\<forall>mk e2 v2. EmplaceBack T mk v1 e1 = (e2, v2, None) \<longrightarrow>
          Size v2 = Size v1 + 1 \<and>
          Capacity v2 = (if Size v1 < Capacity v1 then Capacity v1 else max 1 (2 * Capacity v1)))"
proof -
  have start: "m_size (Vector_default :: 'a Vector) = 0" "Capacity (Vector_default :: 'a Vector) = doubling_rule 0"
    by (simp_all add: Vector_default_def Capacity_def RawMemory_Capacity_def RawMemory_default_def)
  from append_all_size_capacity [OF assms start]
  have sc: "m_size v1 = length mks" "Capacity v1 = doubling_rule (length mks)" by simp_all
  then have le: "m_size v1 \<le> Capacity v1" using doubling_rule_ge [of "length mks"] by simp
  have "Size v2 = Size v1 + 1 \<and>
        Capacity v2 = (if Size v1 < Capacity v1 then Capacity v1 else max 1 (2 * Capacity v1))"
    if "EmplaceBack T mk v1 e1 = (e2, v2, None)" for mk e2 v2
    using EmplaceBack_size_capacity [OF that] le by (auto simp: Size_def max_def)
  with sc show ?thesis by (simp add: Size_def)
qed

theorem appends_follow_doubling_rule_witness:
  "append_all Plain_int (map (T_copy Plain_int) [1, 2, 3]) Vector_default () = ((), vec_123, None)
   \<and> Size vec_123 = 3 \<and> Capacity vec_123 = 4
   \<and> map doubling_rule [0, 1, 2, 3, 4, 5, 6, 7, 8, 9] = [0, 1, 2, 4, 4, 8, 8, 8, 8, 16]"
proof -
  have run: "append_all Plain_int (map (T_copy Plain_int) [1, 2, 3]) Vector_default () = ((), vec_123, None)"
    by code_simp
  have rule: "map doubling_rule [0, 1, 2, 3, 4, 5, 6, 7, 8, 9] = [0, 1, 2, 4, 4, 8, 8, 8, 8, 16]"
    by code_simp
  from appends_follow_doubling_rule [OF run] run rule show ?thesis by simp
qed

section \<open>The invariant \<open>size \<le> capacity\<close>\<close>

text \<open>
  C9. \<open>size \<le> capacity\<close> holds of a default-constructed vector, of every vector a
  constructor builds, and of every vector an operation leaves behind when it was called
  on vectors that satisfy it and returned or threw: construction, copy and move
  assignment, \<open>Swap\<close>, \<open>Reserve\<close>, \<open>Resize\<close>, \<open>PushBack\<close>, \<open>EmplaceBack\<close>, \<open>PopBack\<close>,
  \<open>Insert\<close>, \<open>Emplace\<close>, \<open>Erase\<close>.
\<close>

theorem size_le_capacity_preserved:
  fixes T :: "('a, 'e) elem_type" and v w :: "'a Vector" and st :: "'a store"
  assumes "m_size v \<le> Capacity v" and "m_size w \<le> Capacity w"
    and "\<forall>a. m_size (st a) \<le> Capacity (st a)"
  shows "m_size (Vector_default :: 'a Vector) \<le> Capacity (Vector_default :: 'a Vector)
    \<and> (\<forall>n e e1 v1. Vector_sized T n e = (e1, Inr v1) \<longrightarrow> m_size v1 \<le> Capacity v1)
    \<and> (\<forall>e e1 v1. Vector_copy T v e = (e1, Inr v1) \<longrightarrow> m_size v1 \<le> Capacity v1)
    \<and> (\<forall>v1 v2. Vector_move v = (v1, v2) \<longrightarrow> m_size v1 \<le> Capacity v1 \<and> m_size v2 \<le> Capacity v2)
    \<and> (\<forall>v1 w1. Swap (v, w) = (v1, w1) \<longrightarrow> m_size v1 \<le> Capacity v1 \<and> m_size w1 \<le> Capacity w1)
    \<and> (\<forall>n e e1 v1 r. Reserve T n v e = (e1, v1, r) \<longrightarrow> goes_on r \<longrightarrow> m_size v1 \<le> Capacity v1)
    \<and> (\<forall>n e e1 v1 r. Resize T n v e = (e1, v1, r) \<longrightarrow> goes_on r \<longrightarrow> m_size v1 \<le> Capacity v1)
    \<and> (\<forall>mk e e1 v1 r. EmplaceBack T mk v e = (e1, v1, r) \<longrightarrow> goes_on r \<longrightarrow> m_size v1 \<le> Capacity v1)
    \<and> (\<forall>x e e1 v1 r. PushBack T x v e = (e1, v1, r) \<longrightarrow> goes_on r \<longrightarrow> m_size v1 \<le> Capacity v1)
    \<and> (\<forall>x e e1 v1 r. PushBack_rvalue T x v e = (e1, v1, r) \<longrightarrow> goes_on r \<longrightarrow> m_size v1 \<le> Capacity v1)
    \<and> (\<forall>e e1 v1 r. PopBack T v e = (e1, v1, r) \<longrightarrow> goes_on r \<longrightarrow> m_size v1 \<le> Capacity v1)
    \<and> (\<forall>pos mk e e1 v1 r. Emplace T pos mk v e = (e1, v1, r) \<longrightarrow> goes_on r \<longrightarrow> m_size v1 \<le> Capacity v1)
    \<and> (\<forall>pos x e e1 v1 r. Insert T pos x v e = (e1, v1, r) \<longrightarrow> goes_on r \<longrightarrow> m_size v1 \<le> Capacity v1)
    \<and> (\<forall>pos x e e1 v1 r. Insert_rvalue T pos x v e = (e1, v1, r) \<longrightarrow> goes_on r \<longrightarrow> m_size v1 \<le> Capacity v1)
    \<and> (\<forall>pos e e1 v1 r. Erase T pos v e = (e1, v1, r) \<longrightarrow> goes_on r \<longrightarrow> m_size v1 \<le> Capacity v1)
    \<and> (\<forall>this rhs e e1 st1 r a. assign_copy T st this rhs e = (e1, st1, r) \<longrightarrow> goes_on r \<longrightarrow>
          m_size (st1 a) \<le> Capacity (st1 a))
    \<and> (\<forall>this rhs a. m_size (assign_move st this rhs a) \<le> Capacity (assign_move st this rhs a))
    \<and> (\<forall>this other a. m_size (Swap_at st this other a) \<le> Capacity (Swap_at st this other a))"
proof -
  have dflt: "m_size (Vector_default :: 'a Vector) \<le> Capacity (Vector_default :: 'a Vector)"
    by (simp add: Vector_default_def)
  have sized: "\<forall>n e e1 v1. Vector_sized T n e = (e1, Inr v1) \<longrightarrow> m_size v1 \<le> Capacity v1"
    by (auto dest: Vector_sized_inv)
  have copied: "\<forall>e e1 v1. Vector_copy T v e = (e1, Inr v1) \<longrightarrow> m_size v1 \<le> Capacity v1"
    by (auto dest: Vector_copy_inv)
  have moved: "\<forall>v1 v2. Vector_move v = (v1, v2) \<longrightarrow> m_size v1 \<le> Capacity v1 \<and> m_size v2 \<le> Capacity v2"
    using assms(1) dflt by (simp add: Vector_move_eq)
  have swapped: "\<forall>v1 w1. Swap (v, w) = (v1, w1) \<longrightarrow> m_size v1 \<le> Capacity v1 \<and> m_size w1 \<le> Capacity w1"
    using assms(1,2) by (simp add: Swap_eq)
  have reserve: "\<forall>n e e1 v1 r. Reserve T n v e = (e1, v1, r) \<longrightarrow> goes_on r \<longrightarrow> m_size v1 \<le> Capacity v1"
    using assms(1) by (fastforce dest: Reserve_inv)
  have resize: "\<forall>n e e1 v1 r. Resize T n v e = (e1, v1, r) \<longrightarrow> goes_on r \<longrightarrow> m_size v1 \<le> Capacity v1"
    using assms(1) by (blast dest: Resize_inv)
  have emplace_back: "\<forall>mk e e1 v1 r. EmplaceBack T mk v e = (e1, v1, r) \<longrightarrow> goes_on r \<longrightarrow> m_size v1 \<le> Capacity v1"
    using assms(1) by (blast dest: EmplaceBack_inv)
  have push: "\<forall>x e e1 v1 r. PushBack T x v e = (e1, v1, r) \<longrightarrow> goes_on r \<longrightarrow> m_size v1 \<le> Capacity v1"
    using emplace_back by (simp add: PushBack_def)
  have push_r: "\<forall>x e e1 v1 r. PushBack_rvalue T x v e = (e1, v1, r) \<longrightarrow> goes_on r \<longrightarrow> m_size v1 \<le> Capacity v1"
    using emplace_back by (simp add: PushBack_rvalue_def)
  have pop: "\<forall>e e1 v1 r. PopBack T v e = (e1, v1, r) \<longrightarrow> goes_on r \<longrightarrow> m_size v1 \<le> Capacity v1"
    using assms(1) by (blast dest: PopBack_inv)
  have emplace: "\<forall>pos mk e e1 v1 r. Emplace T pos mk v e = (e1, v1, r) \<longrightarrow> goes_on r \<longrightarrow> m_size v1 \<le> Capacity v1"
    using assms(1) by (blast dest: Emplace_inv)
  have insert: "\<forall>pos x e e1 v1 r. Insert T pos x v e = (e1, v1, r) \<longrightarrow> goes_on r \<longrightarrow> m_size v1 \<le> Capacity v1"
    using emplace by (simp add: Insert_def)
  have insert_r: "\<forall>pos x e e1 v1 r. Insert_rvalue T pos x v e = (e1, v1, r) \<longrightarrow> goes_on r \<longrightarrow> m_size v1 \<le> Capacity v1"
    using emplace by (simp add: Insert_rvalue_def)
  have erase: "\<forall>pos e e1 v1 r. Erase T pos v e = (e1, v1, r) \<longrightarrow> goes_on r \<longrightarrow> m_size v1 \<le> Capacity v1"
    using assms(1) by (blast dest: Erase_inv)
  have assign: "\<forall>this rhs e e1 st1 r a. assign_copy T st this rhs e = (e1, st1, r) \<longrightarrow> goes_on r \<longrightarrow>
          m_size (st1 a) \<le> Capacity (st1 a)"
    using assms(3) by (blast dest: assign_copy_inv)
  have assign_m: "\<forall>this rhs a. m_size (assign_move st this rhs a) \<le> Capacity (assign_move st this rhs a)"
    using assms(3) by (simp add: assign_move_eq)
  have swap_at: "\<forall>this other a. m_size (Swap_at st this other a) \<le> Capacity (Swap_at st this other a)"
    using assms(3) by (simp add: Swap_at_def Swap_eq)
  show ?thesis
    by (intro conjI dflt sized copied moved swapped reserve resize emplace_back push push_r pop
        emplace insert insert_r erase assign assign_m swap_at)
qed

theorem size_le_capacity_preserved_witness:
  "m_size vec_123 \<le> Capacity vec_123 \<and> m_size vec_7 \<le> Capacity vec_7
   \<and> goes_on (snd (snd (Resize Plain_int 5 vec_123 ())))
   \<and> m_size (fst (snd (Resize Plain_int 5 vec_123 ()))) \<le> Capacity (fst (snd (Resize Plain_int 5 vec_123 ())))
   \<and> goes_on (snd (snd (Insert Plain_int 1 99 vec_123 ())))
   \<and> m_size (fst (snd (Insert Plain_int 1 99 vec_123 ()))) \<le> Capacity (fst (snd (Insert Plain_int 1 99 vec_123 ())))
   \<and> goes_on (snd (snd (Erase Plain_int 0 vec_123 ())))
   \<and> m_size (fst (snd (Erase Plain_int 0 vec_123 ()))) \<le> Capacity (fst (snd (Erase Plain_int 0 vec_123 ())))
   \<and> goes_on (snd (snd (assign_copy Plain_int two_vectors 0 1 ())))
   \<and> m_size (fst (snd (assign_copy Plain_int two_vectors 0 1 ())) 0)
        \<le> Capacity (fst (snd (assign_copy Plain_int two_vectors 0 1 ())) 0)"
proof -
  have h1: "m_size vec_123 \<le> Capacity vec_123" by code_simp
  have h2: "m_size vec_7 \<le> Capacity vec_7" by code_simp
  have h3: "\<forall>a. m_size (two_vectors a) \<le> Capacity (two_vectors a)"
    by (simp add: two_vectors_def vec_7_def vec_123_def Vector_default_def Capacity_def
        RawMemory_Capacity_def RawMemory_default_def)
  note P = size_le_capacity_preserved [OF h1 h2 h3, of Plain_int]
  have g1: "goes_on (snd (snd (Resize Plain_int 5 vec_123 ())))" by code_simp
  have g2: "goes_on (snd (snd (Insert Plain_int 1 99 vec_123 ())))" by code_simp
  have g3: "goes_on (snd (snd (Erase Plain_int 0 vec_123 ())))" by code_simp
  have g4: "goes_on (snd (snd (assign_copy Plain_int two_vectors 0 1 ())))"
    by (simp add: assign_copy_def two_vectors_def) code_simp
  from P [THEN conjunct2, THEN conjunct2, THEN conjunct2, THEN conjunct2, THEN conjunct2, THEN conjunct2, THEN conjunct1] g1 have c1: "m_size (fst (snd (Resize Plain_int 5 vec_123 ()))) \<le> Capacity (fst (snd (Resize Plain_int 5 vec_123 ())))"
    by (metis prod.collapse)
  from P [THEN conjunct2, THEN conjunct2, THEN conjunct2, THEN conjunct2, THEN conjunct2, THEN conjunct2,
      THEN conjunct2, THEN conjunct2, THEN conjunct2, THEN conjunct2, THEN conjunct2, THEN conjunct2, THEN conjunct1] g2 have c2: "m_size (fst (snd (Insert Plain_int 1 99 vec_123 ()))) \<le> Capacity (fst (snd (Insert Plain_int 1 99 vec_123 ())))"
    by (metis prod.collapse)
  from P [THEN conjunct2, THEN conjunct2, THEN conjunct2, THEN conjunct2, THEN conjunct2, THEN conjunct2,
      THEN conjunct2, THEN conjunct2, THEN conjunct2, THEN conjunct2, THEN conjunct2, THEN conjunct2,
      THEN conjunct2, THEN conjunct2, THEN conjunct1] g3 have c3: "m_size (fst (snd (Erase Plain_int 0 vec_123 ()))) \<le> Capacity (fst (snd (Erase Plain_int 0 vec_123 ())))"
    by (metis prod.collapse)
  from P [THEN conjunct2, THEN conjunct2, THEN conjunct2, THEN conjunct2, THEN conjunct2, THEN conjunct2,
      THEN conjunct2, THEN conjunct2, THEN conjunct2, THEN conjunct2, THEN conjunct2, THEN conjunct2,
      THEN conjunct2, THEN conjunct2, THEN conjunct2, THEN conjunct1] g4 have c4: "m_size (fst (snd (assign_copy Plain_int two_vectors 0 1 ())) 0)
        \<le> Capacity (fst (snd (assign_copy Plain_int two_vectors 0 1 ())) 0)"
    by (metis prod.collapse)
  from h1 h2 g1 g2 g3 g4 c1 c2 c3 c4 show ?thesis by blast
qed

section \<open>Facts: where an exception can come from\<close>

lemma destroy_at_no_exception:
  "destroy_at T b i e = (e1, b1, Some f) \<Longrightarrow> f = Undefined_behaviour \<and> b1 = b \<and> e1 = e"
  by (auto simp: destroy_at_def split: slot.splits)

lemma destroy_n_no_exception:
  "destroy_n T b first n e = (e1, b1, Some f) \<Longrightarrow> f = Undefined_behaviour"
proof (induction n arbitrary: b first e)
  case 0
  then show ?case by simp
next
  case (Suc n)
  then show ?case
    by (auto split: prod.splits option.splits dest: destroy_at_no_exception)
qed






section \<open>Facts: which operations of \<open>T\<close> a transfer uses\<close>

lemma destroy_at_upd [simp]:
  "destroy_at (T\<lparr>T_copy := c\<rparr>) b i e = destroy_at T b i e"
  "destroy_at (T\<lparr>T_move := m\<rparr>) b i e = destroy_at T b i e"
  by (simp_all add: destroy_at_def split: slot.splits)

lemma destroy_n_upd [simp]:
  "destroy_n (T\<lparr>T_copy := c\<rparr>) b first n e = destroy_n T b first n e"
  "destroy_n (T\<lparr>T_move := m\<rparr>) b first n e = destroy_n T b first n e"
  by (induction n arbitrary: b first e; simp split: prod.splits option.splits)+

lemma uninitialized_move_loop_upd [simp]:
  "uninitialized_move_loop (T\<lparr>T_copy := c\<rparr>) src sfirst dst dfirst i k e =
   uninitialized_move_loop T src sfirst dst dfirst i k e"
  by (induction k arbitrary: src dst i e)
    (simp_all split: slot.splits prod.splits sum.splits)

lemma uninitialized_copy_loop_upd [simp]:
  "uninitialized_copy_loop (T\<lparr>T_move := m\<rparr>) src sfirst dst dfirst i k e =
   uninitialized_copy_loop T src sfirst dst dfirst i k e"
  by (induction k arbitrary: dst i e)
    (simp_all split: slot.splits prod.splits sum.splits)

lemma RawMemory_new_upd [simp]:
  "RawMemory_new (T\<lparr>T_copy := c\<rparr>) n e = RawMemory_new T n e"
  "RawMemory_new (T\<lparr>T_move := m\<rparr>) n e = RawMemory_new T n e"
  by (simp_all add: RawMemory_new_def Allocate_def split: prod.splits)





section \<open>Facts: what the algorithms leave in the blocks when they return\<close>

lemma slot_at_Live: "slot_at b i = Live x \<longleftrightarrow> i < length b \<and> b ! i = Live x"
  by (simp add: slot_at_def)


lemma destroy_n_live:
  "first + n \<le> length b \<Longrightarrow> \<forall>j. first \<le> j \<and> j < first + n \<longrightarrow> b ! j \<noteq> Raw \<Longrightarrow>
   \<exists>e1 b1. destroy_n T b first n e = (e1, b1, None)"
proof (induction n arbitrary: b first e)
  case 0
  then show ?case by auto
next
  case (Suc n)
  from Suc.prems obtain x where x: "b ! first = Live x" "first < length b"
    by (cases "b ! first") auto
  then have a: "destroy_at T b first e = (T_destroy T x e, b[first := Raw], None)"
    by (simp add: destroy_at_def slot_at_def)
  have "\<exists>e1 b1. destroy_n T (b[first := Raw]) (Suc first) n (T_destroy T x e) = (e1, b1, None)"
    using Suc.prems by (intro Suc.IH) (auto simp: nth_list_update)
  with a show ?case by simp
qed

lemma uninitialized_copy_loop_None:
  assumes "copy_keeps_value T"
  shows "uninitialized_copy_loop T src sf dst df i m e = (e1, dst1, None) \<Longrightarrow>
     length dst1 = length dst \<and>
     (\<forall>k. i \<le> k \<and> k < i + m \<longrightarrow> sf + k < length src \<and> src ! (sf + k) \<noteq> Raw \<and> df + k < length dst) \<and>
     (\<forall>j < length dst. dst1 ! j = (if df + i \<le> j \<and> j < df + i + m then src ! (sf + (j - df)) else dst ! j))"
proof (induction m arbitrary: dst i e)
  case 0
  then show ?case by auto
next
  case (Suc m)
  from Suc.prems obtain x where x: "slot_at src (sf + i) = Live x"
    by (auto split: slot.splits)
  with Suc.prems have d: "df + i < length dst" by (auto split: if_splits)
  from Suc.prems x d obtain e2 y where c: "T_copy T x e = (e2, Inr y)"
    and r: "uninitialized_copy_loop T src sf (dst[df + i := Live y]) df (Suc i) m e2 = (e1, dst1, None)"
    by (auto split: prod.splits sum.splits)
  from c assms have y: "y = x" by (auto simp: copy_keeps_value_def)
  from x have sx: "sf + i < length src" "src ! (sf + i) = Live x" by (simp_all add: slot_at_Live)
  from Suc.IH [OF r] have
    l: "length dst1 = length dst" and
    rng: "\<forall>k. Suc i \<le> k \<and> k < Suc i + m \<longrightarrow> sf + k < length src \<and> src ! (sf + k) \<noteq> Raw \<and> df + k < length dst" and
    vals: "\<forall>j < length dst. dst1 ! j =
        (if df + Suc i \<le> j \<and> j < df + Suc i + m then src ! (sf + (j - df)) else dst[df + i := Live y] ! j)"
    by simp_all
  have "\<forall>k. i \<le> k \<and> k < i + Suc m \<longrightarrow> sf + k < length src \<and> src ! (sf + k) \<noteq> Raw \<and> df + k < length dst"
  proof (intro allI impI)
    fix k assume "i \<le> k \<and> k < i + Suc m"
    then consider "k = i" | "Suc i \<le> k \<and> k < Suc i + m" by force
    then show "sf + k < length src \<and> src ! (sf + k) \<noteq> Raw \<and> df + k < length dst"
      using sx d rng by cases auto
  qed
  moreover have "\<forall>j < length dst. dst1 ! j =
      (if df + i \<le> j \<and> j < df + i + Suc m then src ! (sf + (j - df)) else dst ! j)"
    using vals sx y d by (auto simp: nth_list_update)
  ultimately show ?case using l by simp
qed

lemma uninitialized_move_loop_None:
  assumes "move_keeps_value T"
  shows "uninitialized_move_loop T src sf dst df i m e = (e1, src1, dst1, None) \<Longrightarrow>
     length dst1 = length dst \<and> length src1 = length src \<and>
     (\<forall>k. i \<le> k \<and> k < i + m \<longrightarrow> sf + k < length src \<and> src ! (sf + k) \<noteq> Raw \<and> df + k < length dst) \<and>
     (\<forall>j < length dst. dst1 ! j = (if df + i \<le> j \<and> j < df + i + m then src ! (sf + (j - df)) else dst ! j)) \<and>
     (\<forall>j < length src. if sf + i \<le> j \<and> j < sf + i + m then src1 ! j \<noteq> Raw else src1 ! j = src ! j)"
proof (induction m arbitrary: src dst i e)
  case 0
  then show ?case by auto
next
  case (Suc m)
  from Suc.prems obtain x where x: "slot_at src (sf + i) = Live x"
    by (auto split: slot.splits)
  with Suc.prems have d: "df + i < length dst" by (auto split: if_splits)
  from Suc.prems x d obtain e2 x' y where c: "T_move T x e = (e2, x', Inr y)"
    and r: "uninitialized_move_loop T (src[sf + i := Live x']) sf (dst[df + i := Live y]) df (Suc i) m e2
              = (e1, src1, dst1, None)"
    by (auto split: prod.splits sum.splits)
  from c assms have y: "y = x" by (auto simp: move_keeps_value_def)
  from x have sx: "sf + i < length src" "src ! (sf + i) = Live x" by (simp_all add: slot_at_Live)
  from Suc.IH [OF r] have
    l: "length dst1 = length dst" "length src1 = length src" and
    rng: "\<forall>k. Suc i \<le> k \<and> k < Suc i + m \<longrightarrow>
            sf + k < length src \<and> src[sf + i := Live x'] ! (sf + k) \<noteq> Raw \<and> df + k < length dst" and
    vals: "\<forall>j < length dst. dst1 ! j =
        (if df + Suc i \<le> j \<and> j < df + Suc i + m then src[sf + i := Live x'] ! (sf + (j - df))
         else dst[df + i := Live y] ! j)" and
    rest: "\<forall>j < length src. if sf + Suc i \<le> j \<and> j < sf + Suc i + m then src1 ! j \<noteq> Raw
         else src1 ! j = src[sf + i := Live x'] ! j"
    by simp_all
  have "\<forall>k. i \<le> k \<and> k < i + Suc m \<longrightarrow> sf + k < length src \<and> src ! (sf + k) \<noteq> Raw \<and> df + k < length dst"
  proof (intro allI impI)
    fix k assume "i \<le> k \<and> k < i + Suc m"
    then consider "k = i" | "Suc i \<le> k \<and> k < Suc i + m" by force
    then show "sf + k < length src \<and> src ! (sf + k) \<noteq> Raw \<and> df + k < length dst"
    proof cases
      case 1
      with sx d show ?thesis by simp
    next
      case 2
      with rng have "sf + k < length src \<and> src[sf + i := Live x'] ! (sf + k) \<noteq> Raw \<and> df + k < length dst"
        by blast
      with 2 show ?thesis by (simp add: nth_list_update)
    qed
  qed
  moreover have "\<forall>j < length dst. dst1 ! j =
      (if df + i \<le> j \<and> j < df + i + Suc m then src ! (sf + (j - df)) else dst ! j)"
  proof (intro allI impI)
    fix j assume j: "j < length dst"
    consider "j = df + i" | "df + Suc i \<le> j \<and> j < df + Suc i + m" | "j < df + i \<or> df + Suc i + m \<le> j"
      by force
    then show "dst1 ! j = (if df + i \<le> j \<and> j < df + i + Suc m then src ! (sf + (j - df)) else dst ! j)"
    proof cases
      case 1
      with vals j sx y d show ?thesis by simp
    next
      case 2
      then have "sf + (j - df) \<noteq> sf + i" by arith
      with vals j 2 show ?thesis by (auto simp: nth_list_update)
    next
      case 3
      with vals j show ?thesis by (auto simp: nth_list_update)
    qed
  qed
  moreover have "\<forall>j < length src. if sf + i \<le> j \<and> j < sf + i + Suc m then src1 ! j \<noteq> Raw else src1 ! j = src ! j"
  proof (intro allI impI)
    fix j assume j: "j < length src"
    consider "j = sf + i" | "sf + Suc i \<le> j \<and> j < sf + Suc i + m" | "j < sf + i \<or> sf + Suc i + m \<le> j"
      by force
    then show "if sf + i \<le> j \<and> j < sf + i + Suc m then src1 ! j \<noteq> Raw else src1 ! j = src ! j"
    proof cases
      case 1
      with rest j show ?thesis by (auto simp: nth_list_update split: if_splits)
    next
      case 2
      with rest j show ?thesis by auto
    next
      case 3
      with rest j show ?thesis by (auto simp: nth_list_update split: if_splits)
    qed
  qed
  ultimately show ?case using l by simp
qed


lemma copy_n_None:
  assumes "copy_assign_keeps_value T"
  shows "copy_n T src sf n dst df e = (e1, dst1, None) \<Longrightarrow>
     length dst1 = length dst \<and>
     (\<forall>k < n. sf + k < length src \<and> src ! (sf + k) \<noteq> Raw \<and> df + k < length dst) \<and>
     (\<forall>j < length dst. dst1 ! j = (if df \<le> j \<and> j < df + n then src ! (sf + (j - df)) else dst ! j))"
proof (induction n arbitrary: sf df dst e)
  case 0
  then show ?case by auto
next
  case (Suc n)
  from Suc.prems obtain x y where x: "slot_at src sf = Live x" and y: "slot_at dst df = Live y"
    by (auto split: slot.splits)
  from Suc.prems x y obtain e2 y' where c: "T_copy_assign T y x e = (e2, y', None)"
    and r: "copy_n T src (Suc sf) n (dst[df := Live y']) (Suc df) e2 = (e1, dst1, None)"
    by (auto split: prod.splits option.splits)
  from c assms have y': "y' = x" by (auto simp: copy_assign_keeps_value_def)
  from x y have sx: "sf < length src" "src ! sf = Live x" "df < length dst"
    by (simp_all add: slot_at_Live)
  from Suc.IH [OF r] have
    l: "length dst1 = length dst" and
    rng: "\<forall>k < n. Suc sf + k < length src \<and> src ! (Suc sf + k) \<noteq> Raw \<and> Suc df + k < length dst" and
    vals: "\<forall>j < length dst. dst1 ! j =
        (if Suc df \<le> j \<and> j < Suc df + n then src ! (Suc sf + (j - Suc df)) else dst[df := Live y'] ! j)"
    by simp_all
  have "\<forall>k < Suc n. sf + k < length src \<and> src ! (sf + k) \<noteq> Raw \<and> df + k < length dst"
  proof (intro allI impI)
    fix k assume "k < Suc n"
    then consider "k = 0" | k' where "k = Suc k'" "k' < n" by (cases k) auto
    then show "sf + k < length src \<and> src ! (sf + k) \<noteq> Raw \<and> df + k < length dst"
      using sx rng by cases auto
  qed
  moreover have "\<forall>j < length dst. dst1 ! j = (if df \<le> j \<and> j < df + Suc n then src ! (sf + (j - df)) else dst ! j)"
  proof (intro allI impI)
    fix j assume j: "j < length dst"
    consider "j = df" | "Suc df \<le> j \<and> j < Suc df + n" | "j < df \<or> Suc df + n \<le> j" by force
    then show "dst1 ! j = (if df \<le> j \<and> j < df + Suc n then src ! (sf + (j - df)) else dst ! j)"
    proof cases
      case 1
      with vals j sx y' show ?thesis by simp
    next
      case 2
      then have "Suc sf + (j - Suc df) = sf + (j - df)" by arith
      with vals j 2 show ?thesis by auto
    next
      case 3
      with vals j show ?thesis by (auto simp: nth_list_update)
    qed
  qed
  ultimately show ?case using l by simp
qed

lemma MoveOrCopyData_None:
  assumes "copy_keeps_value T" "move_keeps_value T"
    and "MoveOrCopyData T dat nd n e = (e1, dat1, nd1, None)"
  shows "m_capacity nd1 = m_capacity nd \<and> length (m_buffer nd1) = length (m_buffer nd) \<and>
     m_capacity dat1 = m_capacity dat \<and> length (m_buffer dat1) = length (m_buffer dat) \<and>
     (\<forall>k < n. k < length (m_buffer dat) \<and> m_buffer dat ! k \<noteq> Raw \<and> k < length (m_buffer nd)) \<and>
     (\<forall>j < length (m_buffer nd). m_buffer nd1 ! j = (if j < n then m_buffer dat ! j else m_buffer nd ! j)) \<and>
     (\<forall>j < length (m_buffer dat). if j < n then m_buffer dat1 ! j \<noteq> Raw else m_buffer dat1 ! j = m_buffer dat ! j)"
proof (cases "is_nothrow_move_constructible_v T \<or> \<not> is_copy_constructible_v T")
  case True
  with assms(3) obtain src dst where
    r: "uninitialized_move_loop T (m_buffer dat) 0 (m_buffer nd) 0 0 n e = (e1, src, dst, None)"
    and d: "dat1 = dat\<lparr>m_buffer := src\<rparr>" "nd1 = nd\<lparr>m_buffer := dst\<rparr>"
    by (auto simp: MoveOrCopyData_def uninitialized_move_n_def split: prod.splits)
  from uninitialized_move_loop_None [OF assms(2) r] d show ?thesis by simp
next
  case False
  with assms(3) obtain dst where
    r: "uninitialized_copy_loop T (m_buffer dat) 0 (m_buffer nd) 0 0 n e = (e1, dst, None)"
    and d: "dat1 = dat" "nd1 = nd\<lparr>m_buffer := dst\<rparr>"
    by (auto simp: MoveOrCopyData_def uninitialized_copy_n_def split: prod.splits)
  from uninitialized_copy_loop_None [OF assms(1) r] d show ?thesis by auto
qed


lemma EmplaceBack_None:
  assumes "copy_keeps_value T" "move_keeps_value T" "constructs mk x"
    and "EmplaceBack T mk v e = (e1, v1, None)"
  shows "live_range v1 = live_range v @ [Live x] \<and> m_size v \<le> length (m_buffer (m_data v))"
proof (cases "m_size v = Capacity v")
  case True
  define c where "c = (if m_size v = 0 then 1 else m_size v * 2)"
  from assms(4) True obtain e2 nd e3 nd0 e4 dat nd1 e5 b where
    a: "RawMemory_new T c e = (e2, Inr nd)" and
    p: "placement_new nd (m_size v) mk e2 = (e3, nd0, None)" and
    m: "MoveOrCopyData T (m_data v) nd0 (m_size v) e3 = (e4, dat, nd1, None)" and
    d: "destroy_n T (m_buffer dat) 0 (m_size v) e4 = (e5, b, None)" and
    v1: "v1 = v\<lparr>m_data := nd1, m_size := m_size v + 1\<rparr>"
    unfolding c_def
    by (auto simp: EmplaceBack_def RawMemory_Swap_def split: prod.splits sum.splits option.splits if_splits)
  note nd = RawMemory_new_Inr [OF a]
  have c: "m_size v < c" by (simp add: c_def)
  from p nd obtain e' y where mk: "mk e2 = (e', Inr y)" and
    nd0: "nd0 = nd\<lparr>m_buffer := (m_buffer nd)[m_size v := Live y]\<rparr>"
    by (auto simp: placement_new_def RawMemory_plus_def split: if_splits prod.splits sum.splits)
  from mk assms(3) have y: "y = x" by (auto simp: constructs_def)
  note M = MoveOrCopyData_None [OF assms(1,2) m]
  from M nd nd0 have len: "length (m_buffer nd1) = c" by simp
  from M have "\<forall>k < m_size v. k < length (m_buffer (m_data v))" by blast
  then have sz: "m_size v \<le> length (m_buffer (m_data v))"
    by (metis not_less order_refl)
  have "take (Suc (m_size v)) (m_buffer nd1) = take (m_size v) (m_buffer (m_data v)) @ [Live x]"
    using M sz len nd nd0 c y by (intro nth_equalityI) (auto simp: nth_append less_Suc_eq)
  with v1 sz show ?thesis by (simp add: live_range_def)
next
  case False
  with assms(4) obtain dat where
    p: "placement_new (m_data v) (m_size v) mk e = (e1, dat, None)" and
    v1: "v1 = v\<lparr>m_data := dat, m_size := m_size v + 1\<rparr>"
    by (auto simp: EmplaceBack_def split: prod.splits option.splits)
  from p obtain y where mk: "mk e = (e1, Inr y)" and lt: "m_size v < length (m_buffer (m_data v))" and
    dat: "dat = (m_data v)\<lparr>m_buffer := (m_buffer (m_data v))[m_size v := Live y]\<rparr>"
    by (auto simp: placement_new_def RawMemory_plus_def split: if_splits prod.splits sum.splits)
  from mk assms(3) have y: "y = x" by (auto simp: constructs_def)
  from lt v1 dat y show ?thesis
    by (simp add: live_range_def take_Suc_conv_app_nth)
qed

lemma append_all_live_range:
  assumes "copy_keeps_value T" "move_keeps_value T"
  shows "list_all2 constructs mks xs \<Longrightarrow> append_all T mks v e = (e1, v1, None) \<Longrightarrow>
         live_range v1 = live_range v @ map Live xs"
proof (induction mks arbitrary: xs v e)
  case Nil
  then show ?case by simp
next
  case (Cons mk mks)
  from Cons.prems(1) obtain x xs' where xs: "xs = x # xs'" "constructs mk x" "list_all2 constructs mks xs'"
    by (auto simp: list_all2_Cons1)
  from Cons.prems(2) obtain e2 v2 where
    step: "EmplaceBack T mk v e = (e2, v2, None)" and rest: "append_all T mks v2 e2 = (e1, v1, None)"
    by (auto split: prod.splits option.splits)
  from EmplaceBack_None [OF assms xs(2) step] Cons.IH [OF xs(3) rest] xs(1)
  show ?case by simp
qed

lemma Vector_index_live_range:
  assumes "live_range v = map Live xs" "m_size v = length xs" "m_size v \<le> Capacity v" "i < length xs"
  shows "Vector_index v i = Inr (xs ! i)"
proof -
  from assms(1,2) have "length (take (m_size v) (m_buffer (m_data v))) = m_size v"
    by (simp add: live_range_def)
  then have len: "m_size v \<le> length (m_buffer (m_data v))" by simp
  from assms(1) have "take (m_size v) (m_buffer (m_data v)) ! i = map Live xs ! i"
    by (simp add: live_range_def)
  with assms(2,4) have "m_buffer (m_data v) ! i = Live (xs ! i)" by simp
  with assms len show ?thesis
    by (simp add: Vector_index_def RawMemory_index_def slot_at_def Capacity_def RawMemory_Capacity_def)
qed

lemma PushBack_all_append_all:
  "PushBack_all T xs v e = append_all T (map (T_copy T) xs) v e"
  by (induction xs arbitrary: v e) (simp_all add: PushBack_def split: prod.splits option.splits)

lemma constructs_copy: "copy_keeps_value T \<Longrightarrow> list_all2 constructs (map (T_copy T) xs) xs"
  by (induction xs) (auto simp: constructs_def copy_keeps_value_def)

lemma live_range_default: "live_range Vector_default = []"
  by (simp add: live_range_def Vector_default_def)

section \<open>Facts: appends that cannot fail\<close>

lemma uninitialized_copy_loop_returns:
  assumes "\<forall>x e. \<exists>e1 y. T_copy T x e = (e1, Inr y)"
  shows "\<forall>k. i \<le> k \<and> k < i + m \<longrightarrow> sf + k < length src \<and> src ! (sf + k) \<noteq> Raw \<and> df + k < length dst \<Longrightarrow>
         \<exists>e1 dst1. uninitialized_copy_loop T src sf dst df i m e = (e1, dst1, None)"
proof (induction m arbitrary: dst i e)
  case 0
  then show ?case by simp
next
  case (Suc m)
  from Suc.prems have h: "sf + i < length src" "src ! (sf + i) \<noteq> Raw" "df + i < length dst"
    by simp_all
  then obtain x where x: "slot_at src (sf + i) = Live x"
    by (cases "src ! (sf + i)") (auto simp: slot_at_def)
  from assms obtain e2 y where c: "T_copy T x e = (e2, Inr y)" by blast
  have "\<exists>e1 dst1. uninitialized_copy_loop T src sf (dst[df + i := Live y]) df (Suc i) m e2 = (e1, dst1, None)"
    using Suc.prems by (intro Suc.IH) simp
  with x h c show ?case by simp
qed

lemma uninitialized_move_loop_returns:
  assumes "\<forall>x e. \<exists>e1 x' y. T_move T x e = (e1, x', Inr y)"
  shows "\<forall>k. i \<le> k \<and> k < i + m \<longrightarrow> sf + k < length src \<and> src ! (sf + k) \<noteq> Raw \<and> df + k < length dst \<Longrightarrow>
         \<exists>e1 src1 dst1. uninitialized_move_loop T src sf dst df i m e = (e1, src1, dst1, None)"
proof (induction m arbitrary: src dst i e)
  case 0
  then show ?case by simp
next
  case (Suc m)
  from Suc.prems have h: "sf + i < length src" "src ! (sf + i) \<noteq> Raw" "df + i < length dst"
    by simp_all
  then obtain x where x: "slot_at src (sf + i) = Live x"
    by (cases "src ! (sf + i)") (auto simp: slot_at_def)
  from assms obtain e2 x' y where c: "T_move T x e = (e2, x', Inr y)" by blast
  have "\<exists>e1 src1 dst1. uninitialized_move_loop T (src[sf + i := Live x']) sf (dst[df + i := Live y]) df
            (Suc i) m e2 = (e1, src1, dst1, None)"
    using Suc.prems by (intro Suc.IH) (simp add: nth_list_update)
  with x h c show ?case by simp
qed

lemma well_formed_live:
  "well_formed v \<Longrightarrow> k < m_size v \<Longrightarrow> k < length (m_buffer (m_data v)) \<and> m_buffer (m_data v) ! k \<noteq> Raw"
  by (auto simp: well_formed_def live_range_def in_set_conv_nth)

lemma MoveOrCopyData_returns:
  assumes "never_fails T" "well_formed v" "m_size v \<le> length (m_buffer nd)"
  shows "\<exists>e1 dat1 nd1. MoveOrCopyData T (m_data v) nd (m_size v) e = (e1, dat1, nd1, None)"
proof -
  have rng: "\<forall>k. 0 \<le> k \<and> k < 0 + m_size v \<longrightarrow>
      0 + k < length (m_buffer (m_data v)) \<and> m_buffer (m_data v) ! (0 + k) \<noteq> Raw \<and> 0 + k < length (m_buffer nd)"
    using well_formed_live [OF assms(2)] assms(3) by simp
  show ?thesis
  proof (cases "is_nothrow_move_constructible_v T \<or> \<not> is_copy_constructible_v T")
    case True
    from assms(1) have "\<forall>x e. \<exists>e1 x' y. T_move T x e = (e1, x', Inr y)" by (simp add: never_fails_def)
    from uninitialized_move_loop_returns [OF this rng, of e] True show ?thesis
      by (auto simp: MoveOrCopyData_def uninitialized_move_n_def)
  next
    case False
    from assms(1) have "\<forall>x e. \<exists>e1 y. T_copy T x e = (e1, Inr y)" by (simp add: never_fails_def)
    from uninitialized_copy_loop_returns [OF this rng, of e] False show ?thesis
      by (auto simp: MoveOrCopyData_def uninitialized_copy_n_def)
  qed
qed

lemma EmplaceBack_returns:
  assumes "never_fails T" "copy_keeps_value T" "move_keeps_value T"
    and "\<forall>e. \<exists>e1. mk e = (e1, Inr x)" and "well_formed v"
  shows "\<exists>e1 v1. EmplaceBack T mk v e = (e1, v1, None) \<and> well_formed v1"
proof -
  have mkx: "constructs mk x" using assms(4) by (auto simp: constructs_def) (metis Pair_inject sum.inject(2))
  have ret: "\<exists>e1 v1. EmplaceBack T mk v e = (e1, v1, None)"
  proof (cases "m_size v = Capacity v")
    case True
    define c where "c = (if m_size v = 0 then 1 else m_size v * 2)"
    have c: "c \<noteq> 0" "m_size v < c" by (simp_all add: c_def)
    from assms(1) obtain e2 where "operator_new T c e = (e2, True)"
      unfolding never_fails_def by blast
    with c have a: "RawMemory_new T c e = (e2, Inr \<lparr>m_buffer = replicate c Raw, m_capacity = c\<rparr>)"
      by (simp add: RawMemory_new_def Allocate_def)
    from assms(4) obtain e3 where mk: "mk e2 = (e3, Inr x)" by blast
    let ?nd0 = "\<lparr>m_buffer = (replicate c Raw)[m_size v := Live x], m_capacity = c\<rparr>"
    from mk c have p: "placement_new \<lparr>m_buffer = replicate c Raw, m_capacity = c\<rparr> (m_size v) mk e2 = (e3, ?nd0, None)"
      by (simp add: placement_new_def RawMemory_plus_def)
    from c have "m_size v \<le> length (m_buffer ?nd0)" by simp
    from MoveOrCopyData_returns [OF assms(1,5) this] obtain e4 dat nd1 where
      m: "MoveOrCopyData T (m_data v) ?nd0 (m_size v) e3 = (e4, dat, nd1, None)" by blast
    note M = MoveOrCopyData_None [OF assms(2,3) m]
    have "\<exists>e5 b. destroy_n T (m_buffer dat) 0 (m_size v) e4 = (e5, b, None)"
    proof (rule destroy_n_live)
      from M well_formed_live [OF assms(5)] show "0 + m_size v \<le> length (m_buffer dat)"
        using assms(5) by (simp add: well_formed_def)
      from M show "\<forall>j. 0 \<le> j \<and> j < 0 + m_size v \<longrightarrow> m_buffer dat ! j \<noteq> Raw"
        using well_formed_live [OF assms(5)] by (metis add_0)
    qed
    then obtain e5 b where d: "destroy_n T (m_buffer dat) 0 (m_size v) e4 = (e5, b, None)" by blast
    from True a p m d show ?thesis
      unfolding c_def by (simp add: EmplaceBack_def RawMemory_Swap_def)
  next
    case False
    with assms(5) have lt: "m_size v < m_capacity (m_data v)" "m_size v < length (m_buffer (m_data v))"
      by (simp_all add: well_formed_def Capacity_def RawMemory_Capacity_def)
    from assms(4) obtain e1 where mk: "mk e = (e1, Inr x)" by blast
    with lt have "placement_new (m_data v) (m_size v) mk e
        = (e1, (m_data v)\<lparr>m_buffer := (m_buffer (m_data v))[m_size v := Live x]\<rparr>, None)"
      by (simp add: placement_new_def RawMemory_plus_def)
    with False show ?thesis by (simp add: EmplaceBack_def)
  qed
  then obtain e1 v1 where r: "EmplaceBack T mk v e = (e1, v1, None)" by blast
  from EmplaceBack_None [OF assms(2,3) mkx r] have lr: "live_range v1 = live_range v @ [Live x]" by simp
  from EmplaceBack_size_capacity [OF r] have sc: "m_size v1 = m_size v + 1"
    "Capacity v1 = (if m_size v = Capacity v then (if m_size v = 0 then 1 else m_size v * 2) else Capacity v)"
    by simp_all
  from lr sc have "length (live_range v1) = m_size v1"
    using assms(5) by (simp add: well_formed_def live_range_def)
  then have len: "m_size v1 \<le> length (m_buffer (m_data v1))" by (simp add: live_range_def)
  have cap: "length (m_buffer (m_data v1)) = m_capacity (m_data v1)"
    using r assms(5)
    by (auto simp: EmplaceBack_def well_formed_def RawMemory_Swap_def placement_new_def RawMemory_plus_def
        split: if_splits prod.splits sum.splits option.splits
        dest!: RawMemory_new_Inr MoveOrCopyData_None [OF assms(2,3)])
  from lr assms(5) have "Raw \<notin> set (live_range v1)" by (simp add: well_formed_def)
  with len cap have "well_formed v1" by (simp add: well_formed_def)
  with r show ?thesis by blast
qed

lemma PushBack_all_returns:
  assumes "never_fails T" "copy_keeps_value T" "move_keeps_value T"
  shows "well_formed v \<Longrightarrow> \<exists>e1 v1. PushBack_all T xs v e = (e1, v1, None)"
proof (induction xs arbitrary: v e)
  case Nil
  then show ?case by simp
next
  case (Cons x xs)
  have "\<forall>e. \<exists>e1. T_copy T x e = (e1, Inr x)"
    using assms(1,2) unfolding never_fails_def copy_keeps_value_def by metis
  from EmplaceBack_returns [OF assms this Cons.prems, of e] obtain e2 v2 where
    s: "PushBack T x v e = (e2, v2, None)" and w: "well_formed v2"
    by (auto simp: PushBack_def)
  from Cons.IH [OF w, of e2] s show ?case by simp
qed

section \<open>Round trip\<close>

text \<open>
  C4. For an element type whose copies and moves preserve the value: when the values of a
  list \<open>xs\<close> are appended one by one to a default-constructed vector and every append
  returns, the size is the length of \<open>xs\<close> and \<open>operator[]\<close> at 0, 1, ... reads back
  exactly \<open>xs\<close>, in order, whatever reallocations happened on the way. And when the
  constructors of \<open>T\<close> and the allocation never fail, every append does return.
\<close>

theorem append_then_read_round_trip:
  fixes T :: "('a, 'e) elem_type" and v :: "'a Vector"
  assumes "copy_keeps_value T" and "move_keeps_value T"
  shows "(PushBack_all T xs Vector_default e = (e1, v, None) \<longrightarrow>
            Size v = length xs \<and> map (Vector_index v) [0..<length xs] = map Inr xs)
     \<and> (never_fails T \<longrightarrow> (\<exists>e2 v2. PushBack_all T xs Vector_default e = (e2, v2, None)))"
proof -
  have read_back: "Size v = length xs \<and> map (Vector_index v) [0..<length xs] = map Inr xs"
    if "PushBack_all T xs Vector_default e = (e1, v, None)"
  proof -
    from that have run: "append_all T (map (T_copy T) xs) Vector_default e = (e1, v, None)"
      by (simp add: PushBack_all_append_all)
    have start: "m_size (Vector_default :: 'a Vector) = 0"
      "Capacity (Vector_default :: 'a Vector) = doubling_rule 0"
      by (simp_all add: Vector_default_def Capacity_def RawMemory_Capacity_def RawMemory_default_def)
    from append_all_size_capacity [OF run start]
    have sz: "m_size v = length xs" and cap: "m_size v \<le> Capacity v"
      using doubling_rule_ge [of "length xs"] by simp_all
    from append_all_live_range [OF assms(1,2) constructs_copy [OF assms(1)] run]
    have lr: "live_range v = map Live xs" by (simp add: live_range_default)
    have "map (Vector_index v) [0..<length xs] = map Inr xs"
      using Vector_index_live_range [OF lr sz cap] by (intro nth_equalityI) simp_all
    with sz show ?thesis by (simp add: Size_def)
  qed
  have wf: "well_formed (Vector_default :: 'a Vector)"
    by (simp add: well_formed_def live_range_def Vector_default_def RawMemory_default_def)
  have returns: "\<exists>e2 v2. PushBack_all T xs Vector_default e = (e2, v2, None)" if "never_fails T"
    using PushBack_all_returns [OF that assms wf] by blast
  from read_back returns show ?thesis by blast
qed

theorem append_then_read_round_trip_witness:
  "copy_keeps_value Throwing \<and> move_keeps_value Throwing
   \<and> PushBack_all Throwing [1, 2, 3] Vector_default 6 = (0, vec_123, None)
   \<and> Size vec_123 = length [1, 2, 3 :: int]
   \<and> map (Vector_index vec_123) [0..<length [1, 2, 3 :: int]] = map Inr [1, 2, 3]
   \<and> copy_keeps_value Plain_int \<and> move_keeps_value Plain_int \<and> never_fails Plain_int
   \<and> PushBack_all Plain_int [1, 2, 3] Vector_default () = ((), vec_123, None)"
proof -
  have c: "copy_keeps_value Throwing"
    by (auto simp: copy_keeps_value_def Throwing_def count_down_def split: if_splits)
  have m: "move_keeps_value Throwing"
    by (auto simp: move_keeps_value_def Throwing_def count_down_def split: if_splits)
  have run: "PushBack_all Throwing [1, 2, 3] Vector_default 6 = (0, vec_123, None)"
    by code_simp
  have c': "copy_keeps_value Plain_int" by (simp add: copy_keeps_value_def Plain_int_def)
  have m': "move_keeps_value Plain_int" by (simp add: move_keeps_value_def Plain_int_def)
  have n': "never_fails Plain_int" by (simp add: never_fails_def Plain_int_def)
  have run': "PushBack_all Plain_int [1, 2, 3] Vector_default () = ((), vec_123, None)"
    by code_simp
  from append_then_read_round_trip [OF c m, of "[1, 2, 3]" 6 0 vec_123] run
  have r: "Size vec_123 = length [1, 2, 3 :: int]
      \<and> map (Vector_index vec_123) [0..<length [1, 2, 3 :: int]] = map Inr [1, 2, 3]"
    by blast
  from append_then_read_round_trip [OF c' m', of "[1, 2, 3]" "()"] n'
  have "\<exists>e2 v2. PushBack_all Plain_int [1, 2, 3] Vector_default () = (e2, v2, None)"
    by blast
  with c m run r c' m' n' run' show ?thesis by blast
qed

section \<open>Facts: resizing\<close>

lemma destroy_slot_simps [simp]:
  "destroy_slot T Raw e = e" "destroy_slot T (Live x) e = T_destroy T x e"
  by (simp_all add: destroy_slot_def)




section \<open>Resize\<close>



section \<open>Facts: copying a vector\<close>

lemma Vector_copy_None:
  assumes "copy_keeps_value T" and "Vector_copy T other e = (e1, Inr v1)"
  shows "m_size v1 = m_size other \<and> live_range v1 = live_range other"
proof -
  from assms(2) obtain e2 d b where
    a: "RawMemory_new T (m_size other) e = (e2, Inr d)" and
    u: "uninitialized_copy_loop T (m_buffer (m_data other)) 0 (m_buffer d) 0 0 (m_size other) e2 = (e1, b, None)" and
    v1: "v1 = \<lparr>m_data = d\<lparr>m_buffer := b\<rparr>, m_size = m_size other\<rparr>"
    by (auto simp: Vector_copy_def uninitialized_copy_n_def split: prod.splits sum.splits option.splits)
  note nd = RawMemory_new_Inr [OF a]
  note U = uninitialized_copy_loop_None [OF assms(1) u]
  from U have "\<forall>k < m_size other. k < length (m_buffer (m_data other))" by simp
  then have sz: "m_size other \<le> length (m_buffer (m_data other))"
    by (metis not_less order_refl)
  have "take (m_size other) b = take (m_size other) (m_buffer (m_data other))"
    using U nd sz by (intro nth_equalityI) auto
  with v1 show ?thesis by (simp add: live_range_def)
qed

lemma copy_assign_distinct_None:
  assumes "copy_keeps_value T" "copy_assign_keeps_value T"
    and "copy_assign_distinct T this rhs e = (e1, v1, None)"
  shows "m_size v1 = m_size rhs \<and> live_range v1 = live_range rhs"
proof (cases "m_size rhs > RawMemory_Capacity (m_data this)")
  case True
  with assms(3) obtain e2 rhs_copy where
    c: "Vector_copy T rhs e = (e2, Inr rhs_copy)" and v1: "v1 = rhs_copy"
    by (auto simp: copy_assign_distinct_def Swap_eq split: prod.splits sum.splits)
  from Vector_copy_None [OF assms(1) c] v1 show ?thesis by simp
next
  case False
  let ?src = "m_buffer (m_data rhs)" and ?dst = "m_buffer (m_data this)"
  show ?thesis
  proof (cases "m_size rhs \<le> m_size this")
    case True
    with assms(3) False obtain e2 b b1 where
      d: "destroy_n T ?dst (m_size rhs) (m_size this - m_size rhs) e = (e2, b, None)" and
      c: "copy_n T ?src 0 (m_size rhs) b 0 e2 = (e1, b1, None)" and
      v1: "v1 = this\<lparr>m_data := (m_data this)\<lparr>m_buffer := b1\<rparr>, m_size := m_size rhs\<rparr>"
      by (auto simp: copy_assign_distinct_def split: prod.splits option.splits)
    note C = copy_n_None [OF assms(2) c]
    from C have "\<forall>k < m_size rhs. k < length ?src \<and> k < length b" by simp
    then have sz: "m_size rhs \<le> length ?src" "m_size rhs \<le> length b"
      by (metis not_less order_refl)+
    have "take (m_size rhs) b1 = take (m_size rhs) ?src"
      using C sz by (intro nth_equalityI) auto
    with v1 show ?thesis by (simp add: live_range_def)
  next
    case gt: False
    with assms(3) False obtain e2 b b1 where
      u: "uninitialized_copy_loop T ?src (m_size this) ?dst (m_size this) 0 (m_size rhs - m_size this) e
            = (e2, b, None)" and
      c: "copy_n T ?src 0 (m_size this) b 0 e2 = (e1, b1, None)" and
      v1: "v1 = this\<lparr>m_data := (m_data this)\<lparr>m_buffer := b1\<rparr>, m_size := m_size rhs\<rparr>"
      by (auto simp: copy_assign_distinct_def uninitialized_copy_n_def split: prod.splits option.splits)
    note U = uninitialized_copy_loop_None [OF assms(1) u]
    note C = copy_n_None [OF assms(2) c]
    from gt have k: "0 \<le> m_size rhs - m_size this - 1 \<and> m_size rhs - m_size this - 1 < 0 + (m_size rhs - m_size this)"
      by simp
    from U k have "m_size this + (m_size rhs - m_size this - 1) < length ?src
        \<and> m_size this + (m_size rhs - m_size this - 1) < length ?dst"
      by blast
    with gt have sz: "m_size rhs \<le> length ?src" "m_size rhs \<le> length ?dst" by linarith+
    have "take (m_size rhs) b1 = take (m_size rhs) ?src"
      using C U sz gt by (intro nth_equalityI) auto
    with v1 show ?thesis by (simp add: live_range_def)
  qed
qed

lemma Vector_dtor_no_exception: "Vector_dtor T v e = (e1, Some f) \<Longrightarrow> f = Undefined_behaviour"
  by (auto simp: Vector_dtor_def split: prod.splits dest: destroy_n_no_exception)

lemma copy_assign_distinct_exception:
  assumes "copy_assign_distinct T this rhs e = (e1, v1, Some (Exception x))"
  shows "m_size v1 = m_size this \<and> Capacity v1 = Capacity this
       \<and> (m_size rhs > Capacity this \<longrightarrow> v1 = this)"
  using assms
  by (auto simp: copy_assign_distinct_def Capacity_def RawMemory_Capacity_def Swap_eq
      split: if_splits prod.splits sum.splits option.splits
      dest: Vector_dtor_no_exception)

section \<open>Copy assignment\<close>

text \<open>
  C7. For a \<open>T\<close> whose copy constructor and copy assignment preserve the value: when
  \<open>this = rhs\<close> (as objects at addresses \<open>this\<close> and \<open>rhs\<close> of a store) returns, the
  receiver has the source's size and, slot by slot from \<open>begin()\<close> to \<open>end()\<close>, the
  source's elements, and no other vector has changed. When it leaves by an exception, the
  receiver's size and capacity are what they were (the size is written last), and if the
  source held more elements than the receiver's capacity, nothing at all has changed.
\<close>

theorem copy_assignment:
  assumes "copy_keeps_value T" and "copy_assign_keeps_value T"
  shows "(assign_copy T st this rhs e = (e1, st1, None) \<longrightarrow>
            m_size (st1 this) = m_size (st rhs) \<and> live_range (st1 this) = live_range (st rhs)
            \<and> (\<forall>a. a \<noteq> this \<longrightarrow> st1 a = st a))
     \<and> (assign_copy T st this rhs e = (e1, st1, Some (Exception x)) \<longrightarrow>
            m_size (st1 this) = m_size (st this) \<and> Capacity (st1 this) = Capacity (st this)
            \<and> (\<forall>a. a \<noteq> this \<longrightarrow> st1 a = st a)
            \<and> (m_size (st rhs) > Capacity (st this) \<longrightarrow> st1 = st))"
proof (cases "this = rhs")
  case True
  then show ?thesis by (simp add: assign_copy_def)
next
  case False
  have ok: "m_size (st1 this) = m_size (st rhs) \<and> live_range (st1 this) = live_range (st rhs)
            \<and> (\<forall>a. a \<noteq> this \<longrightarrow> st1 a = st a)"
    if "assign_copy T st this rhs e = (e1, st1, None)"
  proof -
    from that False obtain v1 where
      c: "copy_assign_distinct T (st this) (st rhs) e = (e1, v1, None)" and s: "st1 = st(this := v1)"
      by (auto simp: assign_copy_def split: prod.splits)
    from copy_assign_distinct_None [OF assms c] s show ?thesis by simp
  qed
  have ex: "m_size (st1 this) = m_size (st this) \<and> Capacity (st1 this) = Capacity (st this)
            \<and> (\<forall>a. a \<noteq> this \<longrightarrow> st1 a = st a)
            \<and> (m_size (st rhs) > Capacity (st this) \<longrightarrow> st1 = st)"
    if "assign_copy T st this rhs e = (e1, st1, Some (Exception x))"
  proof -
    from that False obtain v1 where
      c: "copy_assign_distinct T (st this) (st rhs) e = (e1, v1, Some (Exception x))" and
      s: "st1 = st(this := v1)"
      by (auto simp: assign_copy_def split: prod.splits)
    from copy_assign_distinct_exception [OF c] s show ?thesis by auto
  qed
  from ok ex show ?thesis by blast
qed

theorem copy_assignment_witness:
  "copy_keeps_value Throwing \<and> copy_assign_keeps_value Throwing
   \<and> Capacity (two_vectors 0) < m_size (two_vectors 1)
   \<and> assign_copy Throwing two_vectors 0 1 2 = (0, two_vectors, Some (Exception (Thrown 0)))
   \<and> snd (snd (assign_copy Throwing two_vectors 0 1 3)) = None
   \<and> m_size (fst (snd (assign_copy Throwing two_vectors 0 1 3)) 0) = m_size (two_vectors 1)
   \<and> live_range (fst (snd (assign_copy Throwing two_vectors 0 1 3)) 0) = live_range (two_vectors 1)
   \<and> live_range (two_vectors 1) = [Live 1, Live 2, Live 3]"
proof -
  have c: "copy_keeps_value Throwing"
    by (auto simp: copy_keeps_value_def Throwing_def count_down_def split: if_splits)
  have a: "copy_assign_keeps_value Throwing"
    by (simp add: copy_assign_keeps_value_def Throwing_def)
  have big: "Capacity (two_vectors 0) < m_size (two_vectors 1)" by code_simp
  have f: "fst (assign_copy Throwing two_vectors 0 1 2) = 0"
    "snd (snd (assign_copy Throwing two_vectors 0 1 2)) = Some (Exception (Thrown 0))"
    by code_simp+
  have s: "snd (snd (assign_copy Throwing two_vectors 0 1 3)) = None" by code_simp
  have l: "live_range (two_vectors 1) = [Live 1, Live 2, Live 3]" by code_simp
  note C = copy_assignment [OF c a]
  from C [where st = two_vectors and this = 0 and rhs = 1 and e = 2 and ?e1.0 = 0
      and ?st1.0 = "fst (snd (assign_copy Throwing two_vectors 0 1 2))" and x = "Thrown 0"] f big
  have unchanged: "assign_copy Throwing two_vectors 0 1 2 = (0, two_vectors, Some (Exception (Thrown 0)))"
    by (metis prod.collapse)
  from C [where st = two_vectors and this = 0 and rhs = 1 and e = 3
      and ?e1.0 = "fst (assign_copy Throwing two_vectors 0 1 3)"
      and ?st1.0 = "fst (snd (assign_copy Throwing two_vectors 0 1 3))"] s
  have copied: "m_size (fst (snd (assign_copy Throwing two_vectors 0 1 3)) 0) = m_size (two_vectors 1)
     \<and> live_range (fst (snd (assign_copy Throwing two_vectors 0 1 3)) 0) = live_range (two_vectors 1)"
    by (metis prod.collapse)
  from c a big unchanged s copied l show ?thesis by blast
qed

section \<open>Facts: shifting to the right\<close>

lemma move_backward_loop_None:
  assumes "move_assign_keeps_value T" "moves_leave_source T"
  shows "move_backward_loop T b l (Suc l) n e = (e1, b1, None) \<Longrightarrow> n \<le> l \<Longrightarrow>
     length b1 = length b \<and>
     (\<forall>j < length b. b1 ! j = (if l - n < j \<and> j \<le> l then b ! (j - 1) else b ! j))"
proof (induction n arbitrary: b l e)
  case 0
  then show ?case by auto
next
  case (Suc n)
  from Suc.prems(2) have l: "l \<noteq> 0" by simp
  from Suc.prems(1) l obtain x y where
    x: "slot_at b (l - 1) = Live x" and y: "slot_at b l = Live y"
    by (auto split: slot.splits)
  from Suc.prems(1) l x y obtain e2 y' x' where
    a: "T_move_assign T y x e = (e2, y', x', None)" and
    r: "move_backward_loop T (b[l := Live y', l - 1 := Live x']) (l - 1) l n e2 = (e1, b1, None)"
    by (auto split: prod.splits option.splits)
  from a assms have yx: "y' = x" "x' = x"
    unfolding move_assign_keeps_value_def moves_leave_source_def by blast+
  from x y have bx: "l < length b" "b ! (l - 1) = Live x"
    by (simp_all add: slot_at_Live)
  let ?b = "b[l := Live x, l - 1 := Live x]"
  from l have sl: "Suc (l - 1) = l" by simp
  from r yx sl have r': "move_backward_loop T ?b (l - 1) (Suc (l - 1)) n e2 = (e1, b1, None)"
    by simp
  from Suc.prems(2) have n: "n \<le> l - 1" by simp
  from Suc.IH [OF r' n] have
    len: "length b1 = length b" and
    vals: "\<forall>j < length b. b1 ! j = (if l - 1 - n < j \<and> j \<le> l - 1 then ?b ! (j - 1) else ?b ! j)"
    by simp_all
  have "\<forall>j < length b. b1 ! j = (if l - Suc n < j \<and> j \<le> l then b ! (j - 1) else b ! j)"
  proof (intro allI impI)
    fix j assume j: "j < length b"
    consider "j = l" | "l - Suc n < j \<and> j \<le> l - 1" | "j \<le> l - Suc n \<or> l < j" by force
    then show "b1 ! j = (if l - Suc n < j \<and> j \<le> l then b ! (j - 1) else b ! j)"
    proof cases
      case 1
      with vals j l bx Suc.prems(2) show ?thesis by (simp add: nth_list_update)
    next
      case 2
      then have "j - 1 \<noteq> l" "j - 1 \<noteq> l - 1 \<or> b ! (j - 1) = Live x" "l - 1 - n < j" "j \<le> l" by auto
      with vals j 2 show ?thesis by (auto simp: nth_list_update)
    next
      case 3
      then have "j \<noteq> l" "\<not> (l - 1 - n < j \<and> j \<le> l - 1)" using Suc.prems(2) by auto
      with vals j 3 bx show ?thesis by (auto simp: nth_list_update)
    qed
  qed
  with len show ?case by simp
qed

lemma EmplaceMove_None:
  assumes "move_keeps_value T" "move_assign_keeps_value T" "moves_leave_source T" "constructs mk x"
    and "EmplaceMove T index mk v e = (e1, v1, None)"
  shows "m_size v1 = m_size v + 1 \<and> index \<le> m_size v
       \<and> live_range v1 = take index (live_range v) @ [Live x] @ drop index (live_range v)"
proof -
  let ?s = "m_size v" and ?b = "m_buffer (m_data v)"
  from assms(5) have idx: "index \<le> ?s" by (auto simp: EmplaceMove_def split: if_splits)
  have shifted: "\<exists>e2 b2. placement_new ((m_data v)\<lparr>m_buffer := b2\<rparr>) index mk e2
                    = (e1, m_data v1, None) \<and> m_size v1 = ?s + 1 \<and> length b2 = length ?b
                \<and> (?s \<noteq> 0 \<longrightarrow> ?s < length ?b)
                \<and> (\<forall>j < length ?b. j \<noteq> index \<longrightarrow>
                      b2 ! j = (if index < j \<and> j \<le> ?s then ?b ! (j - 1) else ?b ! j))"
  proof (cases "?s = 0")
    case True
    obtain e5 dat1 r5 where n: "placement_new (m_data v) index mk e = (e5, dat1, r5)"
      by (metis prod_cases3)
    with assms(5) idx True have "r5 = None" "e5 = e1" "m_data v1 = dat1" "m_size v1 = ?s + 1"
      by (cases r5; auto simp: EmplaceMove_def)+
    with n True show ?thesis
      by (intro exI [of _ e] exI [of _ ?b]) simp
  next
    case False
    obtain e2 dat r2 where p0: "placement_new_move T (m_data v) ?s (?s - 1) e = (e2, dat, r2)"
      by (metis prod_cases3)
    with assms(5) idx False have "r2 = None"
      by (cases r2) (auto simp: EmplaceMove_def)
    with p0 have p: "placement_new_move T (m_data v) ?s (?s - 1) e = (e2, dat, None)" by simp
    obtain e3 b r3 where m0: "move_backward T (m_buffer dat) index ?s (?s + 1) e2 = (e3, b, r3)"
      by (metis prod_cases3)
    with assms(5) idx False p have "r3 = None"
      by (cases r3) (auto simp: EmplaceMove_def split: fault.splits prod.splits)
    with m0 have m: "move_backward T (m_buffer dat) index ?s (?s + 1) e2 = (e3, b, None)" by simp
    obtain e4 b3 r4 where d0: "destroy_at T b index e3 = (e4, b3, r4)"
      by (metis prod_cases3)
    with assms(5) idx False p m have "r4 = None"
      by (cases r4) (auto simp: EmplaceMove_def)
    with d0 have d: "destroy_at T b index e3 = (e4, b3, None)" by simp
    obtain e5 dat1 r5 where n0: "placement_new (dat\<lparr>m_buffer := b3\<rparr>) index mk e4 = (e5, dat1, r5)"
      by (metis prod_cases3)
    with assms(5) idx False p m d have "r5 = None" "e5 = e1" "m_data v1 = dat1" "m_size v1 = ?s + 1"
      by (cases r5; auto simp: EmplaceMove_def)+
    with n0 have n: "placement_new (dat\<lparr>m_buffer := b3\<rparr>) index mk e4 = (e1, m_data v1, None)"
      and sz: "m_size v1 = ?s + 1" by simp_all
    from p obtain x0 e' x0' y0 where
      lt: "?s < length ?b" and x0: "slot_at ?b (?s - 1) = Live x0" and
      mv: "T_move T x0 e = (e', x0', Inr y0)" and
      dat: "dat = (m_data v)\<lparr>m_buffer := ?b[?s - 1 := Live x0', ?s := Live y0]\<rparr>"
      by (auto simp: placement_new_move_def RawMemory_plus_def
          split: if_splits slot.splits prod.splits sum.splits)
    from mv assms(1,3) have v0: "y0 = x0" "x0' = x0"
      unfolding move_keeps_value_def moves_leave_source_def by blast+
    from x0 have bx: "?b ! (?s - 1) = Live x0" by (simp add: slot_at_Live)
    let ?b1 = "?b[?s - 1 := Live x0, ?s := Live x0]"
    from m dat v0 idx have
      ml: "move_backward_loop T ?b1 ?s (Suc ?s) (?s - index) e2 = (e3, b, None)"
      by (simp add: move_backward_def)
    from move_backward_loop_None [OF assms(2,3) ml] have
      len: "length b = length ?b" and
      vals: "\<forall>j < length ?b. b ! j = (if ?s - (?s - index) < j \<and> j \<le> ?s then ?b1 ! (j - 1) else ?b1 ! j)"
      by simp_all
    from d have b3: "b3 = b[index := Raw]"
      by (auto simp: destroy_at_def split: slot.splits)
    have keep: "?b1 ! k = ?b ! k" if "k \<noteq> ?s" for k
    proof (cases "k = ?s - 1")
      case True
      with bx lt that show ?thesis by (simp add: nth_list_update)
    next
      case False
      with that show ?thesis by simp
    qed
    have "\<forall>j < length ?b. j \<noteq> index \<longrightarrow>
            b3 ! j = (if index < j \<and> j \<le> ?s then ?b ! (j - 1) else ?b ! j)"
    proof (intro allI impI)
      fix j assume j: "j < length ?b" "j \<noteq> index"
      from idx have i: "?s - (?s - index) = index" by simp
      from vals j i have bj: "b ! j = (if index < j \<and> j \<le> ?s then ?b1 ! (j - 1) else ?b1 ! j)"
        by simp
      consider "index < j \<and> j \<le> ?s" | "j < index" | "?s < j" using j by force
      then show "b3 ! j = (if index < j \<and> j \<le> ?s then ?b ! (j - 1) else ?b ! j)"
      proof cases
        case 1
        then have "j - 1 \<noteq> ?s" by linarith
        from keep [OF this] bj 1 b3 j show ?thesis by simp
      next
        case 2
        with idx have "j \<noteq> ?s" by simp
        from keep [OF this] bj 2 b3 j show ?thesis by simp
      next
        case 3
        then have "j \<noteq> ?s" by simp
        from keep [OF this] bj 3 b3 j show ?thesis by simp
      qed
    qed
    with n sz dat b3 len lt show ?thesis
      by (intro exI [of _ e4] exI [of _ b3]) simp
  qed
  then obtain e2 b2 where
    n: "placement_new ((m_data v)\<lparr>m_buffer := b2\<rparr>) index mk e2 = (e1, m_data v1, None)" and
    sz: "m_size v1 = ?s + 1" and len: "length b2 = length ?b" and
    nz: "?s \<noteq> 0 \<longrightarrow> ?s < length ?b" and
    vals: "\<forall>j < length ?b. j \<noteq> index \<longrightarrow>
             b2 ! j = (if index < j \<and> j \<le> ?s then ?b ! (j - 1) else ?b ! j)"
    by blast
  from n obtain e' y where mk: "mk e2 = (e', Inr y)" and il: "index < length b2" and
    d0: "(m_data v)\<lparr>m_buffer := b2[index := Live y]\<rparr> = m_data v1"
    by (auto simp: placement_new_def RawMemory_plus_def split: if_splits prod.splits sum.splits)
  from d0 have d1: "m_buffer (m_data v1) = b2[index := Live y]"
    by (metis RawMemory.select_convs(1) RawMemory.surjective RawMemory.update_convs(1))
  from mk assms(4) have y: "y = x" by (auto simp: constructs_def)
  from nz il len idx have big: "?s < length ?b" by (cases "?s = 0") simp_all
  have nth: "take (Suc ?s) (b2[index := Live x]) ! i =
             (take index (take ?s ?b) @ [Live x] @ drop index (take ?s ?b)) ! i"
    if i: "i < Suc ?s" for i
  proof -
    consider "i < index" | "i = index" | k where "i = index + Suc k" "index + k < ?s"
      using i by (metis Suc_less_eq add_Suc_right linorder_neqE_nat less_iff_Suc_add)
    then show ?thesis
    proof cases
      case 1
      with vals len idx big i show ?thesis by (simp add: nth_append)
    next
      case 2
      with len idx big i show ?thesis by (simp add: nth_append)
    next
      case 3
      with vals len idx big i have "b2 ! i = ?b ! (index + k)" by simp
      with 3 len idx big i show ?thesis by (simp add: nth_append)
    qed
  qed
  have "take (Suc ?s) (b2[index := Live x]) = take index (take ?s ?b) @ [Live x] @ drop index (take ?s ?b)"
    using nth len idx big by (intro nth_equalityI) simp_all
  with sz d1 y idx show ?thesis by (simp add: live_range_def)
qed

lemma Emplace_in_place_when_moves_copy:
  assumes "move_keeps_value T" "move_assign_keeps_value T" "moves_leave_source T" "constructs mk x"
    and "m_size v \<noteq> Capacity v" and "Emplace T pos mk v e = (e1, v1, None)"
  shows "m_size v1 = m_size v + 1 \<and> pos \<le> m_size v
       \<and> live_range v1 = take pos (live_range v) @ [Live x] @ drop pos (live_range v)"
proof -
  from assms(5,6) have "EmplaceMove T pos mk v e = (e1, v1, None)" by (simp add: Emplace_def)
  from EmplaceMove_None [OF assms(1-4) this] show ?thesis .
qed

lemma Insert_99_into_123:
  "moves_leave_source Plain_int
   \<and> snd (snd (Insert Plain_int 1 99 vec_123 ())) = None
   \<and> live_range (fst (snd (Insert Plain_int 1 99 vec_123 ()))) = [Live 1, Live 99, Live 2, Live 3]"
proof -
  have "moves_leave_source Plain_int" by (simp add: moves_leave_source_def Plain_int_def)
  moreover have "snd (snd (Insert Plain_int 1 99 vec_123 ())) = None" by code_simp
  moreover have "live_range (fst (snd (Insert Plain_int 1 99 vec_123 ()))) = [Live 1, Live 99, Live 2, Live 3]"
    by code_simp
  ultimately show ?thesis by blast
qed

lemma Erase_first_of_1_99_2_3:
  "snd (snd (Erase Plain_int 0 (fst (snd (Insert Plain_int 1 99 vec_123 ()))) ())) = None
   \<and> live_range (fst (snd (Erase Plain_int 0 (fst (snd (Insert Plain_int 1 99 vec_123 ()))) ())))
       = [Live 99, Live 2, Live 3]"
  by code_simp

section \<open>Insertion in place\<close>

text \<open>
  C1 says that \<open>Emplace\<close> with spare capacity keeps every element's value. The source
  does not: \<open>EmplaceMove\<close> move-constructs the last element into the new trailing slot
  and then calls \<open>std::move_backward\<close> on \<open>[index_, size_)\<close> ending at \<open>size_ + 1\<close>, so
  the first assignment of the shift overwrites the trailing slot with the moved-from last
  element. For a \<open>std::unique_ptr\<close> element type: two appends and \<open>Reserve(4)\<close> give
  \<open>[p1, p2]\<close> with spare capacity; \<open>Emplace(begin(), p0)\<close> then gives \<open>[p0, p1, null]\<close>,
  and \<open>Emplace(end(), p0)\<close> gives \<open>[p1, null, p0]\<close>. (Where moving from an element
  leaves its value in place, as for \<open>int\<close>, the slip does not show:
  \<open>Emplace_in_place_when_moves_copy\<close>.)
\<close>

theorem emplace_in_place_drops_last_element:
  "append_all Unique_ptr [make_ptr 1, make_ptr 2] Vector_default () = ((), ptrs_12_tight, None)
   \<and> Reserve Unique_ptr 4 ptrs_12_tight () = ((), ptrs_12, None)
   \<and> m_size ptrs_12 < Capacity ptrs_12
   \<and> live_range ptrs_12 = [Live (Some 1), Live (Some 2)]
   \<and> Emplace Unique_ptr 0 (make_ptr 0) ptrs_12 () = ((), ptrs_01_null, None)
   \<and> live_range ptrs_01_null = [Live (Some 0), Live (Some 1), Live None]
   \<and> Emplace Unique_ptr 2 (make_ptr 0) ptrs_12 () = ((), ptrs_1_null_0, None)
   \<and> live_range ptrs_1_null_0 = [Live (Some 1), Live None, Live (Some 0)]"
  by code_simp

section \<open>Facts: the loops construct the elements one after the other\<close>














section \<open>Facts: the growing operations construct the elements one after the other\<close>








section \<open>Strong exception safety of the growing operations\<close>



section \<open>The transfer policy\<close>



end
